theory Spec2Isabelle
  imports Main
begin

section \<open>Python values, exceptions and string helpers\<close>

text \<open>
  The handler is Python 2 code.  Exceptions are values of \<open>exn\<close>; every function that can
  raise returns \<open>exn + 'a\<close> with \<open>Inl\<close> for the raised exception.  All exceptions of the
  model are subclasses of Python's \<open>Exception\<close>, so both \<open>except Exception\<close> and the bare
  \<open>except:\<close> of the source catch every \<open>Inl\<close>.
\<close>

datatype exn = ValueError | IndexError | AttributeError | OverflowError | SocketError

text \<open>A configuration value is a string (read from a file) or an integer (a default).\<close>

datatype cval = CStr string | CInt int

definition is_space :: "char \<Rightarrow> bool" where
  "is_space c = (c \<in> set [CHR '' '', CHR 0x09, CHR 0x0A, CHR 0x0B, CHR 0x0C, CHR 0x0D])"

text \<open>\<open>str.split()\<close> without arguments: the maximal runs of non-whitespace characters.\<close>

fun split_acc :: "string \<Rightarrow> string \<Rightarrow> string list" where
  "split_acc [] cur = (if cur = [] then [] else [rev cur])"
| "split_acc (c # cs) cur =
     (if is_space c then (if cur = [] then split_acc cs [] else rev cur # split_acc cs [])
      else split_acc cs (c # cur))"

definition split_ws :: "string \<Rightarrow> string list" where
  "split_ws s = split_acc s []"

text \<open>\<open>str.strip()\<close> and \<open>str.lower()\<close> (ASCII).\<close>

definition strip :: "string \<Rightarrow> string" where
  "strip s = rev (dropWhile is_space (rev (dropWhile is_space s)))"

definition lower_char :: "char \<Rightarrow> char" where
  "lower_char c =
     (case map_of (zip ''ABCDEFGHIJKLMNOPQRSTUVWXYZ'' ''abcdefghijklmnopqrstuvwxyz'') c of
        None \<Rightarrow> c | Some d \<Rightarrow> d)"

definition lower :: "string \<Rightarrow> string" where
  "lower s = map lower_char s"

text \<open>\<open>things[i]\<close> for a non-negative literal index: IndexError out of range.\<close>

definition py_index :: "'a list \<Rightarrow> nat \<Rightarrow> exn + 'a" where
  "py_index xs i = (if i < length xs then Inr (xs ! i) else Inl IndexError)"

text \<open>
  \<open>xs[off:]\<close>: a negative offset counts from the end and is clamped at the start of the
  list; a non-negative offset (zero included) counts from the start.
\<close>

definition py_slice_from :: "int \<Rightarrow> 'a list \<Rightarrow> 'a list" where
  "py_slice_from off xs =
     (if off < 0 then drop (nat (max 0 (int (length xs) + off))) xs else drop (nat off) xs)"

text \<open>\<open>int(v)\<close>: an integer is returned as it is; a string must be an optionally signed
  decimal numeral, surrounding whitespace allowed, else ValueError.\<close>

definition digit_of :: "char \<Rightarrow> int option" where
  "digit_of c =
     map_of [(CHR ''0'', 0), (CHR ''1'', 1), (CHR ''2'', 2), (CHR ''3'', 3), (CHR ''4'', 4),
             (CHR ''5'', 5), (CHR ''6'', 6), (CHR ''7'', 7), (CHR ''8'', 8), (CHR ''9'', 9)] c"

fun digits_val :: "int \<Rightarrow> string \<Rightarrow> int option" where
  "digits_val acc [] = Some acc"
| "digits_val acc (c # cs) =
     (case digit_of c of None \<Rightarrow> None | Some d \<Rightarrow> digits_val (acc * 10 + d) cs)"

definition unsigned_int :: "string \<Rightarrow> exn + int" where
  "unsigned_int s =
     (if s = [] then Inl ValueError
      else case digits_val 0 s of None \<Rightarrow> Inl ValueError | Some n \<Rightarrow> Inr n)"

definition py_int_str :: "string \<Rightarrow> exn + int" where
  "py_int_str s =
     (case strip s of
        [] \<Rightarrow> Inl ValueError
      | c # cs \<Rightarrow>
          if c = CHR ''-'' then
            (case unsigned_int cs of Inl e \<Rightarrow> Inl e | Inr n \<Rightarrow> Inr (- n))
          else if c = CHR ''+'' then unsigned_int cs
          else unsigned_int (c # cs))"

definition py_int :: "cval \<Rightarrow> exn + int" where
  "py_int v = (case v of CInt n \<Rightarrow> Inr n | CStr s \<Rightarrow> py_int_str s)"

definition py_bool :: "cval \<Rightarrow> bool" where
  "py_bool v = (case v of CInt n \<Rightarrow> n \<noteq> 0 | CStr s \<Rightarrow> s \<noteq> [])"

section \<open>The handler object and the world around it\<close>

text \<open>
  \<open>self.config\<close> after \<open>Handler.__init__\<close> (the base class merges the defaults of
  \<open>get_default_config\<close> with the user's settings; it is a parameter here).
\<close>

record config =
  c_proto :: cval
  c_host :: cval
  c_port :: cval
  c_timeout :: cval
  c_keepalive :: cval
  c_keepaliveinterval :: cval
  c_batch :: cval
  c_max_backlog_multiplier :: cval
  c_trim_backlog_multiplier :: cval

text \<open>The attributes of a \<open>SensuHandler\<close>; \<open>socket = None\<close> is the Disconnected state.\<close>

record sensu =
  socket :: "nat option"
  proto :: string
  host :: cval
  port :: int
  timeout :: int
  keepalive :: bool
  keepaliveinterval :: int
  batch_size :: int
  max_backlog_multiplier :: int
  trim_backlog_multiplier :: int
  metrics :: "string list"

datatype sock_type = SOCK_STREAM | SOCK_DGRAM

datatype level = Debug | Warn | Error

text \<open>What the handler does to the outside: socket-library calls and log lines.\<close>

datatype event =
    SocketNew sock_type
  | SetSockOpt string int
  | SetTimeout int
  | Connect nat cval int
  | SendAll nat string
  | Close nat
  | Log level string
  | LogTrim int int

text \<open>
  How a call into the socket library ends.  \<open>ReturnsNone\<close> is the result the source tests
  for after \<open>socket.socket(...)\<close>; for every other call it is an ordinary return.
\<close>

datatype outcome = Returns | ReturnsNone | Raises exn

text \<open>
  The world: the outcomes of the socket-library calls still to come (a call made after
  the list is used up returns normally), the events so far, and the next socket handle.
\<close>

record world =
  pending :: "outcome list"
  trace :: "event list"
  next_fd :: nat

definition emit :: "event \<Rightarrow> world \<Rightarrow> world" where
  "emit ev w = w\<lparr>trace := trace w @ [ev]\<rparr>"

definition lib_call :: "event \<Rightarrow> world \<Rightarrow> outcome \<times> world" where
  "lib_call ev w =
     (case pending w of
        [] \<Rightarrow> (Returns, emit ev w)
      | out # rest \<Rightarrow> (out, emit ev (w\<lparr>pending := rest\<rparr>)))"

text \<open>A run of library calls outside any \<open>try\<close>: the first one that raises ends the run.\<close>

fun lib_calls :: "event list \<Rightarrow> world \<Rightarrow> (exn + unit) \<times> world" where
  "lib_calls [] w = (Inr (), w)"
| "lib_calls (ev # evs) w =
     (case lib_call ev w of
        (Raises e, w1) \<Rightarrow> (Inl e, w1)
      | (_, w1) \<Rightarrow> lib_calls evs w1)"

section \<open>The methods of SensuHandler\<close>

text \<open>\<open>_close\<close>: close the socket if there is one, then forget it.\<close>

definition close :: "sensu \<Rightarrow> world \<Rightarrow> sensu \<times> world" where
  "close h w =
     (case socket h of
        None \<Rightarrow> (h\<lparr>socket := None\<rparr>, w)
      | Some fd \<Rightarrow> (h\<lparr>socket := None\<rparr>, emit (Close fd) w))"

text \<open>
  \<open>_connect\<close>, in three parts: the keepalive options, the \<open>try\<close> block around
  \<open>self.socket.connect\<close>, and the method itself.  Only \<open>self.socket.connect\<close> is inside
  a \<open>try\<close>: an exception of \<open>socket.socket\<close>, \<open>setsockopt\<close> or \<open>settimeout\<close> leaves
  the method.
\<close>

text \<open>
  \<open>settimeout\<close> converts its argument to a C double first: an integer that rounds to
  a magnitude beyond the largest double (from \<open>2 ^ 1024 - 2 ^ 970\<close> on) raises
  OverflowError; a negative timeout raises ValueError.
\<close>

definition float_limit :: int where
  "float_limit = 2 ^ 1024 - 2 ^ 970"

definition settimeout :: "int \<Rightarrow> exn option" where
  "settimeout t =
     (if float_limit \<le> \<bar>t\<bar> then Some OverflowError
      else if t < 0 then Some ValueError
      else None)"

definition set_keepalives :: "sensu \<Rightarrow> world \<Rightarrow> (exn + unit) \<times> world" where
  "set_keepalives h w =
     (if proto h \<noteq> ''udp'' \<and> keepalive h then
        lib_calls
          [SetSockOpt ''SO_KEEPALIVE'' 1,
           SetSockOpt ''TCP_KEEPIDLE'' (keepaliveinterval h),
           SetSockOpt ''TCP_KEEPINTVL'' (keepaliveinterval h),
           SetSockOpt ''TCP_KEEPCNT'' 3]
          (emit (Log Error ''SensuHandler: Setting socket keepalives...'') w)
      else (Inr (), w))"

definition try_connect :: "nat \<Rightarrow> sensu \<Rightarrow> world \<Rightarrow> sensu \<times> world" where
  "try_connect fd h w =
     (case lib_call (Connect fd (host h) (port h)) w of
        (Raises e, w1) \<Rightarrow> close h (emit (Log Error ''SensuHandler: Failed to connect.'') w1)
      | (_, w1) \<Rightarrow> (h, emit (Log Debug ''SensuHandler: Established connection.'') w1))"

definition connect :: "sensu \<Rightarrow> world \<Rightarrow> (exn + unit) \<times> sensu \<times> world" where
  "connect h w =
     (let stream = (if proto h = ''udp'' then SOCK_DGRAM else SOCK_STREAM)
      in case lib_call (SocketNew stream) w of
           (Raises e, w1) \<Rightarrow> (Inl e, h, w1)
         | (ReturnsNone, w1) \<Rightarrow>
             (case close (h\<lparr>socket := None\<rparr>)
                     (emit (Log Error ''SensuHandler: Unable to create socket.'') w1) of
                (h2, w2) \<Rightarrow> (Inr (), h2, w2))
         | (Returns, w1) \<Rightarrow>
             (let fd = next_fd w1;
                  h1 = h\<lparr>socket := Some fd\<rparr>
              in case set_keepalives h1 (w1\<lparr>next_fd := Suc fd\<rparr>) of
                   (Inl e, w2) \<Rightarrow> (Inl e, h1, w2)
                 | (Inr _, w2) \<Rightarrow>
                     (case settimeout (timeout h1) of
                        Some e \<Rightarrow> (Inl e, h1, emit (SetTimeout (timeout h1)) w2)
                      | None \<Rightarrow>
                          (case try_connect fd h1 (emit (SetTimeout (timeout h1)) w2) of
                             (h3, w3) \<Rightarrow> (Inr (), h3, w3)))))"

text \<open>\<open>self.socket.sendall(data)\<close>: on \<open>None\<close> the attribute lookup raises.\<close>

definition sendall :: "string \<Rightarrow> sensu \<Rightarrow> world \<Rightarrow> (exn + unit) \<times> world" where
  "sendall data h w =
     (case socket h of
        None \<Rightarrow> (Inl AttributeError, w)
      | Some fd \<Rightarrow>
          (case lib_call (SendAll fd data) w of
             (Raises e, w1) \<Rightarrow> (Inl e, w1)
           | (_, w1) \<Rightarrow> (Inr (), w1)))"

text \<open>\<open>_send_data\<close>: one try; on any exception close, log, reconnect, and one more try
  outside any handler.\<close>

definition send_data :: "string \<Rightarrow> sensu \<Rightarrow> world \<Rightarrow> (exn + unit) \<times> sensu \<times> world" where
  "send_data data h w =
     (case sendall data h w of
        (Inr _, w1) \<Rightarrow> (Inr (), h, w1)
      | (Inl _, w1) \<Rightarrow>
          (let (h2, w2) = close h w1;
               w3 = emit (Log Error ''SensuHandler: Socket error, trying reconnect.'') w2
           in case connect h2 w3 of
                (Inl e, h4, w4) \<Rightarrow> (Inl e, h4, w4)
              | (Inr _, h4, w4) \<Rightarrow>
                  (case sendall data h4 w4 of (r5, w5) \<Rightarrow> (r5, h4, w5))))"

text \<open>The first statement of \<open>_send\<close>: connect if there is no socket.\<close>

definition ensure_connected :: "sensu \<Rightarrow> world \<Rightarrow> (exn + unit) \<times> sensu \<times> world" where
  "ensure_connected h w =
     (if socket h = None then
        connect h (emit (Log Debug ''SensuHandler: Socket is not connected. Reconnecting.'') w)
      else (Inr (), h, w))"

text \<open>The inner \<open>try\<close> block of \<open>_send\<close>.\<close>

definition send_try :: "sensu \<Rightarrow> world \<Rightarrow> (exn + unit) \<times> sensu \<times> world" where
  "send_try h w =
     (case ensure_connected h w of
        (Inl e, h1, w1) \<Rightarrow> (Inl e, h1, w1)
      | (Inr _, h1, w1) \<Rightarrow>
          if socket h1 = None then
            (Inr (), h1, emit (Log Debug ''SensuHandler: Reconnect failed.'') w1)
          else
            (case send_data (concat (metrics h1)) h1 w1 of
               (Inl e, h2, w2) \<Rightarrow> (Inl e, h2, w2)
             | (Inr _, h2, w2) \<Rightarrow> (Inr (), h2\<lparr>metrics := []\<rparr>, w2)))"

text \<open>The inner \<open>try ... except Exception\<close>: close, log, re-raise.\<close>

definition send_body :: "sensu \<Rightarrow> world \<Rightarrow> (exn + unit) \<times> sensu \<times> world" where
  "send_body h w =
     (case send_try h w of
        (Inl e, h1, w1) \<Rightarrow>
          (let (h2, w2) = close h1 w1
           in (Inl e, h2, emit (Log Error ''SensuHandler: Error sending metrics.'') w2))
      | (Inr _, h1, w1) \<Rightarrow> (Inr (), h1, w1))"

text \<open>The \<open>finally\<close> block of \<open>_send\<close>.\<close>

definition send_finally :: "sensu \<Rightarrow> world \<Rightarrow> sensu \<times> world" where
  "send_finally h w =
     (if int (length (metrics h)) \<ge> batch_size h * max_backlog_multiplier h then
        (let trim_offset = batch_size h * trim_backlog_multiplier h * - 1;
             w1 = emit (LogTrim (int (length (metrics h)) - \<bar>trim_offset\<bar>) \<bar>trim_offset\<bar>) w
         in (h\<lparr>metrics := py_slice_from trim_offset (metrics h)\<rparr>, w1))
      else (h, w))"

text \<open>\<open>_send\<close>: the body, then the \<open>finally\<close> block whatever the body did.\<close>

definition send :: "sensu \<Rightarrow> world \<Rightarrow> (exn + unit) \<times> sensu \<times> world" where
  "send h w =
     (case send_body h w of
        (r, h1, w1) \<Rightarrow> (case send_finally h1 w1 of (h2, w2) \<Rightarrow> (r, h2, w2)))"

definition flush :: "sensu \<Rightarrow> world \<Rightarrow> (exn + unit) \<times> sensu \<times> world" where
  "flush h w = send h w"

text \<open>
  \<open>process\<close>.  The argument \<open>metric\<close> is \<open>str(metric)\<close>; \<open>dumps\<close> is \<open>json.dumps\<close>, applied
  to the dictionary written as the list of its items in source order (it raises on a
  byte string that is not UTF-8).  The items are evaluated in that order, before the
  append, so a failure of the encoding leaves the handler as it was.
\<close>

type_synonym json_dumps = "(string \<times> string) list \<Rightarrow> exn + string"

definition encode :: "json_dumps \<Rightarrow> string \<Rightarrow> exn + string" where
  "encode dumps metric =
     (let things = split_ws metric
      in case py_index things 1 of
           Inl e \<Rightarrow> Inl e
         | Inr output \<Rightarrow>
             (case py_index things 2 of
                Inl e \<Rightarrow> Inl e
              | Inr issued \<Rightarrow>
                  (case py_index things 0 of
                     Inl e \<Rightarrow> Inl e
                   | Inr name \<Rightarrow>
                       (case dumps [(''output'', output), (''issued'', issued), (''name'', name)] of
                          Inl e \<Rightarrow> Inl e
                        | Inr js \<Rightarrow> Inr (js @ [CHR 0x0A])))))"

definition process ::
  "json_dumps \<Rightarrow> string \<Rightarrow> sensu \<Rightarrow> world \<Rightarrow> (exn + unit) \<times> sensu \<times> world"
where
  "process dumps metric h w =
     (case encode dumps metric of
        Inl e \<Rightarrow> (Inl e, h, w)
      | Inr entry \<Rightarrow>
          (let h1 = h\<lparr>metrics := metrics h @ [entry]\<rparr>
           in if int (length (metrics h1)) \<ge> batch_size h1 then send h1 w
              else (Inr (), h1, w)))"

text \<open>A sequence of \<open>process\<close> calls; the caller stops at the first exception.\<close>

fun process_all ::
  "json_dumps \<Rightarrow> string list \<Rightarrow> sensu \<Rightarrow> world \<Rightarrow> (exn + unit) \<times> sensu \<times> world"
where
  "process_all dumps [] h w = (Inr (), h, w)"
| "process_all dumps (m # ms) h w =
     (case process dumps m h w of
        (Inl e, h1, w1) \<Rightarrow> (Inl e, h1, w1)
      | (Inr _, h1, w1) \<Rightarrow> process_all dumps ms h1 w1)"

text \<open>
  \<open>__init__\<close>: read the options in source order, then connect.  \<open>Inr\<close> carries the
  constructed handler; with \<open>Inl\<close> no handler exists.
\<close>

definition init_proto :: "cval \<Rightarrow> exn + string" where
  "init_proto v = (case v of CInt _ \<Rightarrow> Inl AttributeError | CStr s \<Rightarrow> Inr (strip (lower s)))"

definition init :: "config \<Rightarrow> world \<Rightarrow> (exn + sensu) \<times> world" where
  "init cfg w =
     (case init_proto (c_proto cfg) of Inl e \<Rightarrow> (Inl e, w) | Inr pr \<Rightarrow>
     (case py_int (c_port cfg) of Inl e \<Rightarrow> (Inl e, w) | Inr po \<Rightarrow>
     (case py_int (c_timeout cfg) of Inl e \<Rightarrow> (Inl e, w) | Inr ti \<Rightarrow>
     (case py_int (c_keepaliveinterval cfg) of Inl e \<Rightarrow> (Inl e, w) | Inr ki \<Rightarrow>
     (case py_int (c_batch cfg) of Inl e \<Rightarrow> (Inl e, w) | Inr ba \<Rightarrow>
     (case py_int (c_max_backlog_multiplier cfg) of Inl e \<Rightarrow> (Inl e, w) | Inr mx \<Rightarrow>
     (case py_int (c_trim_backlog_multiplier cfg) of Inl e \<Rightarrow> (Inl e, w) | Inr tr \<Rightarrow>
        (case connect
                \<lparr>socket = None, proto = pr, host = c_host cfg, port = po, timeout = ti,
                 keepalive = py_bool (c_keepalive cfg), keepaliveinterval = ki,
                 batch_size = ba, max_backlog_multiplier = mx,
                 trim_backlog_multiplier = tr, metrics = []\<rparr> w of
           (Inl e, h1, w1) \<Rightarrow> (Inl e, w1)
         | (Inr _, h1, w1) \<Rightarrow> (Inr h1, w1)))))))))"

text \<open>The configuration of \<open>get_default_config\<close>.\<close>

definition default_config :: config where
  "default_config =
     \<lparr>c_proto = CStr ''tcp'', c_host = CStr ''localhost'', c_port = CInt 2003,
      c_timeout = CInt 15, c_keepalive = CInt 0, c_keepaliveinterval = CInt 10,
      c_batch = CInt 1, c_max_backlog_multiplier = CInt 5,
      c_trim_backlog_multiplier = CInt 4\<rparr>"

section \<open>Observations on a run\<close>

text \<open>The three numbers of the backlog policy are the same in both handlers.\<close>

definition same_config :: "sensu \<Rightarrow> sensu \<Rightarrow> bool" where
  "same_config h h' =
     (batch_size h' = batch_size h \<and> max_backlog_multiplier h' = max_backlog_multiplier h
      \<and> trim_backlog_multiplier h' = trim_backlog_multiplier h)"

text \<open>The transmissions of a run: the \<open>sendall\<close> calls that reached a socket.\<close>

definition is_sendall :: "event \<Rightarrow> bool" where
  "is_sendall ev = (case ev of SendAll _ _ \<Rightarrow> True | _ \<Rightarrow> False)"

definition transmissions :: "world \<Rightarrow> event list" where
  "transmissions w = filter is_sendall (trace w)"

definition is_trim_log :: "event \<Rightarrow> bool" where
  "is_trim_log ev = (case ev of LogTrim _ _ \<Rightarrow> True | _ \<Rightarrow> False)"

text \<open>
  What \<open>_send_data\<close> returned inside one \<open>_send\<close>: \<open>None\<close> when \<open>_send\<close> never called it
  (no socket after the connect attempt, or the connect attempt raised).
\<close>

definition transmit_result :: "sensu \<Rightarrow> world \<Rightarrow> (exn + unit) option" where
  "transmit_result h w =
     (case ensure_connected h w of
        (Inl e, h1, w1) \<Rightarrow> None
      | (Inr _, h1, w1) \<Rightarrow>
          if socket h1 = None then None
          else Some (fst (send_data (concat (metrics h1)) h1 w1)))"

text \<open>The flushes that began without a socket, counted by their first log line.\<close>

definition reconnect_logs :: "world \<Rightarrow> nat" where
  "reconnect_logs w =
     length (filter (\<lambda>ev. ev = Log Debug ''SensuHandler: Socket is not connected. Reconnecting.'')
               (trace w))"

section \<open>Concrete handlers and worlds\<close>

text \<open>A stand-in for \<open>json.dumps\<close> in the concrete runs below.\<close>

definition sample_dumps :: json_dumps where
  "sample_dumps kvs = Inr (concat (map (\<lambda>(k, v). k @ ''='' @ v @ '';'') kvs))"

text \<open>A world in which every call succeeds, and worlds under an outage.\<close>

definition calm :: world where
  "calm = \<lparr>pending = [], trace = [], next_fd = 0\<rparr>"

definition refused :: world where
  "refused = \<lparr>pending = [Returns, Raises SocketError], trace = [], next_fd = 0\<rparr>"

definition outage :: world where
  "outage =
     \<lparr>pending = [Returns, Raises SocketError, Returns, Raises SocketError,
                 Returns, Raises SocketError, Returns, Raises SocketError],
      trace = [], next_fd = 0\<rparr>"

definition no_descriptors :: world where
  "no_descriptors = \<lparr>pending = [Raises SocketError], trace = [], next_fd = 0\<rparr>"

definition broken_pipe_no_descriptors :: world where
  "broken_pipe_no_descriptors =
     \<lparr>pending = [Raises SocketError, Raises SocketError], trace = [], next_fd = 1\<rparr>"

definition broken_pipe_refused :: world where
  "broken_pipe_refused =
     \<lparr>pending = [Raises SocketError, Returns, Raises SocketError], trace = [], next_fd = 1\<rparr>"

definition broken_pipe_once :: world where
  "broken_pipe_once = \<lparr>pending = [Raises SocketError], trace = [], next_fd = 1\<rparr>"

text \<open>The handler of the default configuration, not connected, nothing queued.\<close>

definition idle :: sensu where
  "idle =
     \<lparr>socket = None, proto = ''tcp'', host = CStr ''localhost'', port = 2003, timeout = 15,
      keepalive = False, keepaliveinterval = 10, batch_size = 1, max_backlog_multiplier = 5,
      trim_backlog_multiplier = 4, metrics = []\<rparr>"

definition policy :: "int \<Rightarrow> int \<Rightarrow> int \<Rightarrow> sensu \<Rightarrow> sensu" where
  "policy b m t h = h\<lparr>batch_size := b, max_backlog_multiplier := m, trim_backlog_multiplier := t\<rparr>"

text \<open>Handlers with a backlog, without and with a connection.\<close>

definition one_queued :: sensu where
  "one_queued = policy 1 2 1 (idle\<lparr>metrics := [''a'']\<rparr>)"

definition two_queued :: sensu where
  "two_queued = policy 1 2 1 (idle\<lparr>metrics := [''a'', ''b'']\<rparr>)"

definition zero_target :: sensu where
  "zero_target = policy 1 2 0 (idle\<lparr>metrics := [''a'', ''b'', ''c'']\<rparr>)"

definition zero_target_one :: sensu where
  "zero_target_one = policy 1 1 0 (idle\<lparr>metrics := [''a'']\<rparr>)"

definition connected :: sensu where
  "connected = idle\<lparr>socket := Some 0\<rparr>"

definition connected_one :: sensu where
  "connected_one = idle\<lparr>socket := Some 0, metrics := [''a'']\<rparr>"

definition connected_two :: sensu where
  "connected_two = idle\<lparr>socket := Some 0, metrics := [''a'', ''b'']\<rparr>"

text \<open>The encoding step of \<open>process\<close> succeeds on this metric.\<close>

definition encodable :: "json_dumps \<Rightarrow> string \<Rightarrow> bool" where
  "encodable dumps metric = (case encode dumps metric of Inl _ \<Rightarrow> False | Inr _ \<Rightarrow> True)"

text \<open>Both the first transmission and the retransmission after a good reconnect fail.\<close>

definition broken_pipe_twice :: world where
  "broken_pipe_twice =
     \<lparr>pending = [Raises SocketError, Returns, Returns, Raises SocketError], trace = [],
      next_fd = 1\<rparr>"

section \<open>What each method leaves unchanged\<close>

lemma same_config_refl: "same_config h h"
  by (simp add: same_config_def)

lemma same_config_trans: "same_config a b \<Longrightarrow> same_config b c \<Longrightarrow> same_config a c"
  by (simp add: same_config_def)

lemma trace_emit: "trace (emit ev w) = trace w @ [ev]"
  by (simp add: emit_def)

lemma transmissions_emit:
  "transmissions (emit ev w) = (if is_sendall ev then transmissions w @ [ev] else transmissions w)"
  by (simp add: transmissions_def emit_def)

lemma lib_call_world:
  "lib_call ev w = (out, w') \<Longrightarrow>
   trace w' = trace w @ [ev] \<and> next_fd w' = next_fd w \<and> pending w' = tl (pending w)"
  by (cases "pending w") (auto simp: lib_call_def emit_def)

lemma transmissions_pending: "transmissions (w\<lparr>pending := p\<rparr>) = transmissions w"
  by (simp add: transmissions_def)

lemma transmissions_next_fd: "transmissions (w\<lparr>next_fd := n\<rparr>) = transmissions w"
  by (simp add: transmissions_def)

lemma lib_call_transmissions:
  "lib_call ev w = (out, w') \<Longrightarrow> \<not> is_sendall ev \<Longrightarrow> transmissions w' = transmissions w"
  by (drule lib_call_world) (simp add: transmissions_def)

lemma lib_calls_transmissions:
  "lib_calls evs w = (r, w') \<Longrightarrow> \<forall>ev \<in> set evs. \<not> is_sendall ev \<Longrightarrow>
   transmissions w' = transmissions w"
proof (induction evs arbitrary: w)
  case Nil
  then show ?case by simp
next
  case (Cons ev evs)
  obtain out w1 where c: "lib_call ev w = (out, w1)" by (cases "lib_call ev w")
  from Cons.prems(2) have ns: "\<not> is_sendall ev" by simp
  have t1: "transmissions w1 = transmissions w" using lib_call_transmissions [OF c ns] .
  show ?case
  proof (cases out)
    case (Raises e)
    with Cons.prems(1) c have "w' = w1" by simp
    with t1 show ?thesis by simp
  next
    case Returns
    with Cons.prems(1) c have "lib_calls evs w1 = (r, w')" by simp
    from Cons.IH [OF this] Cons.prems(2) t1 show ?thesis by simp
  next
    case ReturnsNone
    with Cons.prems(1) c have "lib_calls evs w1 = (r, w')" by simp
    from Cons.IH [OF this] Cons.prems(2) t1 show ?thesis by simp
  qed
qed

lemma close_frame:
  "close h w = (h', w') \<Longrightarrow> socket h' = None \<and> metrics h' = metrics h \<and> same_config h h'"
  by (auto simp: close_def same_config_def split: option.splits)

lemma close_transmissions: "close h w = (h', w') \<Longrightarrow> transmissions w' = transmissions w"
  by (auto simp: close_def transmissions_emit is_sendall_def split: option.splits)

lemma set_keepalives_transmissions:
  assumes "set_keepalives h w = (r, w')"
  shows "transmissions w' = transmissions w"
proof (cases "proto h \<noteq> ''udp'' \<and> keepalive h")
  case True
  let ?w0 = "emit (Log Error ''SensuHandler: Setting socket keepalives...'') w"
  let ?evs = "[SetSockOpt ''SO_KEEPALIVE'' 1,
           SetSockOpt ''TCP_KEEPIDLE'' (keepaliveinterval h),
           SetSockOpt ''TCP_KEEPINTVL'' (keepaliveinterval h),
           SetSockOpt ''TCP_KEEPCNT'' 3]"
  from assms True have "lib_calls ?evs ?w0 = (r, w')"
    unfolding set_keepalives_def by (simp del: lib_calls.simps)
  moreover have "\<forall>ev \<in> set ?evs. \<not> is_sendall ev" by (simp add: is_sendall_def)
  ultimately have "transmissions w' = transmissions ?w0" by (rule lib_calls_transmissions)
  then show ?thesis by (simp add: transmissions_emit is_sendall_def)
next
  case False
  with assms show ?thesis unfolding set_keepalives_def by auto
qed

lemma try_connect_frame:
  assumes "try_connect fd h w = (h', w')"
  shows "metrics h' = metrics h \<and> same_config h h' \<and> (socket h' = None \<or> socket h' = socket h)
   \<and> transmissions w' = transmissions w"
proof -
  obtain out w1 where c: "lib_call (Connect fd (host h) (port h)) w = (out, w1)"
    by (cases "lib_call (Connect fd (host h) (port h)) w")
  have t1: "transmissions w1 = transmissions w"
    by (rule lib_call_transmissions [OF c]) (simp add: is_sendall_def)
  show ?thesis
  proof (cases out)
    case (Raises e)
    with assms c have cl: "close h (emit (Log Error ''SensuHandler: Failed to connect.'') w1) = (h', w')"
      by (simp add: try_connect_def)
    from close_frame [OF cl] close_transmissions [OF cl] t1 show ?thesis
      by (simp add: transmissions_emit is_sendall_def)
  next
    case Returns
    with assms c t1 show ?thesis
      by (auto simp: try_connect_def transmissions_emit is_sendall_def same_config_refl)
  next
    case ReturnsNone
    with assms c t1 show ?thesis
      by (auto simp: try_connect_def transmissions_emit is_sendall_def same_config_refl)
  qed
qed

lemma try_connect_socket:
  "try_connect fd h w = (h', w') \<Longrightarrow> socket h = Some fd \<Longrightarrow>
   socket h' = None \<or> socket h' = Some fd"
  using try_connect_frame by fastforce

lemma connect_frame:
  assumes "connect h w = (r, h', w')"
  shows "metrics h' = metrics h \<and> same_config h h' \<and> transmissions w' = transmissions w"
proof -
  let ?st = "if proto h = ''udp'' then SOCK_DGRAM else SOCK_STREAM"
  obtain out w1 where c: "lib_call (SocketNew ?st) w = (out, w1)"
    by (cases "lib_call (SocketNew ?st) w")
  have t1: "transmissions w1 = transmissions w"
    by (rule lib_call_transmissions [OF c]) (simp add: is_sendall_def)
  show ?thesis
  proof (cases out)
    case (Raises e)
    with assms c t1 show ?thesis by (simp add: connect_def same_config_refl)
  next
    case ReturnsNone
    let ?w2 = "emit (Log Error ''SensuHandler: Unable to create socket.'') w1"
    obtain h2 w2 where cl: "close (h\<lparr>socket := None\<rparr>) ?w2 = (h2, w2)"
      by (cases "close (h\<lparr>socket := None\<rparr>) ?w2")
    with assms c ReturnsNone have e: "h' = h2" "w' = w2" by (simp_all add: connect_def)
    from close_frame [OF cl] close_transmissions [OF cl] t1 e show ?thesis
      by (simp add: transmissions_emit is_sendall_def same_config_def)
  next
    case Returns
    let ?h1 = "h\<lparr>socket := Some (next_fd w1)\<rparr>"
    obtain r2 w2 where k: "set_keepalives ?h1 (w1\<lparr>next_fd := Suc (next_fd w1)\<rparr>) = (r2, w2)"
      by (cases "set_keepalives ?h1 (w1\<lparr>next_fd := Suc (next_fd w1)\<rparr>)")
    have t2: "transmissions w2 = transmissions w"
      using set_keepalives_transmissions [OF k] t1 by (simp add: transmissions_next_fd)
    show ?thesis
    proof (cases r2)
      case (Inl e)
      with assms c Returns k t2 show ?thesis
        by (auto simp: connect_def Let_def same_config_def)
    next
      case (Inr u)
      show ?thesis
      proof (cases "settimeout (timeout h)")
        case (Some e)
        with assms c Returns k Inr t2 show ?thesis
          by (auto simp: connect_def Let_def same_config_def transmissions_emit is_sendall_def)
      next
        case None
        let ?w3 = "emit (SetTimeout (timeout h)) w2"
        obtain h3 w3 where tc: "try_connect (next_fd w1) ?h1 ?w3 = (h3, w3)"
          by (cases "try_connect (next_fd w1) ?h1 ?w3")
        with assms c Returns k Inr None have e: "h' = h3" "w' = w3"
          by (simp_all add: connect_def Let_def)
        from try_connect_frame [OF tc] t2 e show ?thesis
          by (simp add: transmissions_emit is_sendall_def same_config_def)
      qed
    qed
  qed
qed


lemma sendall_ok:
  "sendall d h w = (Inr u, w1) \<Longrightarrow> \<exists>j. socket h = Some j \<and> trace w1 = trace w @ [SendAll j d]"
  unfolding sendall_def
  by (auto split: option.splits prod.splits outcome.splits dest!: lib_call_world)

lemma sendall_None: "socket h = None \<Longrightarrow> sendall d h w = (Inl AttributeError, w)"
  by (simp add: sendall_def)

lemma sendall_transmissions_le:
  "sendall d h w = (r, w1) \<Longrightarrow>
   transmissions w1 = transmissions w \<or> (\<exists>j. transmissions w1 = transmissions w @ [SendAll j d])"
  unfolding sendall_def
  by (auto split: option.splits prod.splits outcome.splits dest!: lib_call_world
           simp: transmissions_def is_sendall_def)

lemma send_data_frame:
  assumes "send_data d h w = (r, h', w')"
  shows "metrics h' = metrics h \<and> same_config h h'"
proof -
  obtain r1 w1 where s1: "sendall d h w = (r1, w1)" by (cases "sendall d h w")
  show ?thesis
  proof (cases r1)
    case (Inr u)
    with assms s1 show ?thesis by (simp add: send_data_def same_config_refl)
  next
    case (Inl e1)
    obtain h2 w2 where cl: "close h w1 = (h2, w2)" by (cases "close h w1")
    let ?w3 = "emit (Log Error ''SensuHandler: Socket error, trying reconnect.'') w2"
    obtain r4 h4 w4 where co: "connect h2 ?w3 = (r4, h4, w4)" by (cases "connect h2 ?w3")
    from close_frame [OF cl] connect_frame [OF co]
    have f: "metrics h4 = metrics h \<and> same_config h h4"
      by (auto intro: same_config_trans)
    show ?thesis
    proof (cases r4)
      case (Inl e4)
      with assms s1 \<open>r1 = Inl e1\<close> cl co f show ?thesis by (simp add: send_data_def)
    next
      case (Inr u4)
      obtain r5 w5 where s5: "sendall d h4 w4 = (r5, w5)" by (cases "sendall d h4 w4")
      with assms s1 \<open>r1 = Inl e1\<close> cl co Inr f show ?thesis by (simp add: send_data_def)
    qed
  qed
qed

lemma send_data_ok:
  assumes "send_data d h w = (Inr u, h', w')"
  shows "\<exists>j pre. socket h' = Some j \<and> trace w' = pre @ [SendAll j d]"
proof -
  obtain r1 w1 where s1: "sendall d h w = (r1, w1)" by (cases "sendall d h w")
  show ?thesis
  proof (cases r1)
    case (Inr u1)
    with assms s1 have e: "h' = h" "w' = w1" by (simp_all add: send_data_def)
    from s1 Inr sendall_ok [of d h w u1 w1] e show ?thesis by blast
  next
    case (Inl e1)
    obtain h2 w2 where cl: "close h w1 = (h2, w2)" by (cases "close h w1")
    let ?w3 = "emit (Log Error ''SensuHandler: Socket error, trying reconnect.'') w2"
    obtain r4 h4 w4 where co: "connect h2 ?w3 = (r4, h4, w4)" by (cases "connect h2 ?w3")
    show ?thesis
    proof (cases r4)
      case (Inl e4)
      with assms s1 \<open>r1 = Inl e1\<close> cl co show ?thesis by (simp add: send_data_def)
    next
      case (Inr u4)
      obtain r5 w5 where s5: "sendall d h4 w4 = (r5, w5)" by (cases "sendall d h4 w4")
      with assms s1 \<open>r1 = Inl e1\<close> cl co Inr have e: "r5 = Inr u" "h' = h4" "w' = w5"
        by (simp_all add: send_data_def)
      from s5 e sendall_ok [of d h4 w4 u w5] show ?thesis by blast
    qed
  qed
qed

lemma ensure_connected_frame:
  "ensure_connected h w = (r, h1, w1) \<Longrightarrow>
   metrics h1 = metrics h \<and> same_config h h1 \<and> transmissions w1 = transmissions w"
  unfolding ensure_connected_def
  by (auto split: if_splits dest!: connect_frame
           simp: transmissions_emit is_sendall_def same_config_refl)

lemma send_finally_metrics:
  "metrics (fst (send_finally h w)) =
     (if batch_size h * max_backlog_multiplier h \<le> int (length (metrics h))
      then py_slice_from (- (batch_size h * trim_backlog_multiplier h)) (metrics h)
      else metrics h)"
  by (simp add: send_finally_def Let_def)

lemma send_finally_frame:
  "socket (fst (send_finally h w)) = socket h \<and> same_config h (fst (send_finally h w))"
  by (simp add: send_finally_def Let_def same_config_def)

lemma send_finally_trace:
  "\<exists>post. trace (snd (send_finally h w)) = trace w @ post \<and> (\<forall>ev \<in> set post. is_trim_log ev)"
  by (simp add: send_finally_def Let_def emit_def is_trim_log_def)

lemma send_finally_transmissions:
  "transmissions (snd (send_finally h w)) = transmissions w"
  by (simp add: send_finally_def Let_def transmissions_emit is_sendall_def)

lemma send_finally_cong:
  "metrics h = metrics g \<Longrightarrow> same_config h g \<Longrightarrow>
   metrics (fst (send_finally h w)) = metrics (fst (send_finally g v))"
  by (simp add: send_finally_metrics same_config_def)


lemma send_try_no_socket:
  "ensure_connected h w = (Inr u, h1, w1) \<Longrightarrow> socket h1 = None \<Longrightarrow>
   send_try h w = (Inr (), h1, emit (Log Debug ''SensuHandler: Reconnect failed.'') w1)"
  by (simp add: send_try_def)

lemma send_try_result:
  assumes "send_try h w = (r, h1, w1)"
  shows "same_config h h1
    \<and> (transmit_result h w = None \<longrightarrow>
         metrics h1 = metrics h \<and> transmissions w1 = transmissions w)
    \<and> (\<forall>e. transmit_result h w = Some (Inl e) \<longrightarrow> r = Inl e \<and> metrics h1 = metrics h)
    \<and> (transmit_result h w = Some (Inr ()) \<longrightarrow>
         r = Inr () \<and> metrics h1 = []
         \<and> (\<exists>j pre. socket h1 = Some j \<and> trace w1 = pre @ [SendAll j (concat (metrics h))]))"
proof -
  obtain r0 h0 w0 where ec: "ensure_connected h w = (r0, h0, w0)"
    by (cases "ensure_connected h w")
  note f0 = ensure_connected_frame [OF ec]
  show ?thesis
  proof (cases r0)
    case (Inl e0)
    with assms ec f0 show ?thesis by (auto simp: send_try_def transmit_result_def)
  next
    case (Inr u0)
    show ?thesis
    proof (cases "socket h0 = None")
      case True
      with assms ec Inr f0 show ?thesis
        by (auto simp: send_try_def transmit_result_def transmissions_emit is_sendall_def)
    next
      case False
      obtain r2 h2 w2 where sd: "send_data (concat (metrics h0)) h0 w0 = (r2, h2, w2)"
        by (cases "send_data (concat (metrics h0)) h0 w0")
      note f2 = send_data_frame [OF sd]
      from ec Inr False sd have tr: "transmit_result h w = Some r2"
        by (simp add: transmit_result_def)
      from f0 f2 have sc: "same_config h h2" by (auto intro: same_config_trans)
      show ?thesis
      proof (cases r2)
        case (Inl e2)
        with assms ec \<open>r0 = Inr u0\<close> False sd have "r = Inl e2" "h1 = h2"
          by (simp_all add: send_try_def)
        with tr Inl f0 f2 sc show ?thesis by simp
      next
        case (Inr u2)
        with assms ec \<open>r0 = Inr u0\<close> False sd
        have e: "r = Inr ()" "h1 = h2\<lparr>metrics := []\<rparr>" "w1 = w2"
          by (simp_all add: send_try_def)
        from sd Inr send_data_ok [of "concat (metrics h0)" h0 w0 u2 h2 w2]
        obtain j pre where "socket h2 = Some j" "trace w2 = pre @ [SendAll j (concat (metrics h0))]"
          by blast
        with e f0 tr Inr sc show ?thesis by (auto simp: same_config_def)
      qed
    qed
  qed
qed

lemma send_body_result:
  assumes "send_body h w = (r, h1, w1)"
  shows "same_config h h1
    \<and> ((\<exists>e. r = Inl e) \<longrightarrow> socket h1 = None)
    \<and> (transmit_result h w = None \<longrightarrow>
         metrics h1 = metrics h \<and> transmissions w1 = transmissions w)
    \<and> (\<forall>e. transmit_result h w = Some (Inl e) \<longrightarrow> r = Inl e \<and> metrics h1 = metrics h)
    \<and> (transmit_result h w = Some (Inr ()) \<longrightarrow>
         r = Inr () \<and> metrics h1 = []
         \<and> (\<exists>j pre. socket h1 = Some j \<and> trace w1 = pre @ [SendAll j (concat (metrics h))]))"
proof -
  obtain r0 h0 w0 where st: "send_try h w = (r0, h0, w0)" by (cases "send_try h w")
  note f0 = send_try_result [OF st]
  show ?thesis
  proof (cases r0)
    case (Inr u0)
    with assms st have "r = Inr ()" "h1 = h0" "w1 = w0" by (simp_all add: send_body_def)
    with f0 Inr show ?thesis by simp
  next
    case (Inl e0)
    obtain h2 w2 where cl: "close h0 w0 = (h2, w2)" by (cases "close h0 w0")
    with assms st Inl have e: "r = Inl e0" "h1 = h2"
      "w1 = emit (Log Error ''SensuHandler: Error sending metrics.'') w2"
      by (simp_all add: send_body_def)
    note fc = close_frame [OF cl] close_transmissions [OF cl]
    from f0 fc have sc: "same_config h h2" by (auto intro: same_config_trans)
    from f0 Inl have nt: "transmit_result h w \<noteq> Some (Inr ())" by auto
    from e f0 fc sc nt Inl show ?thesis
      by (simp add: transmissions_emit is_sendall_def)
  qed
qed

lemma send_body_keeps_backlog:
  "send_body h w = (r, h1, w1) \<Longrightarrow> transmit_result h w \<noteq> Some (Inr ()) \<Longrightarrow>
   metrics h1 = metrics h"
proof -
  assume a: "send_body h w = (r, h1, w1)" and n: "transmit_result h w \<noteq> Some (Inr ())"
  note f = send_body_result [OF a]
  show ?thesis
  proof (cases "transmit_result h w")
    case None
    with f show ?thesis by simp
  next
    case (Some x)
    with n obtain e where "x = Inl e" by (cases x) auto
    with Some f show ?thesis by simp
  qed
qed

lemma send_unfold:
  "send_body h w = (r, h1, w1) \<Longrightarrow>
   send h w = (r, fst (send_finally h1 w1), snd (send_finally h1 w1))"
  by (simp add: send_def split: prod.splits)

lemma slice_last_length:
  "0 < k \<Longrightarrow> k \<le> int (length xs) \<Longrightarrow>
   py_slice_from (- k) xs = drop (length xs - nat k) xs \<and> int (length (py_slice_from (- k) xs)) = k"
  by (auto simp: py_slice_from_def nat_diff_distrib nat_int_add max_def)

lemma slice_nonempty:
  "0 < k \<Longrightarrow> xs \<noteq> [] \<Longrightarrow> py_slice_from (- k) xs \<noteq> []"
  by (auto simp: py_slice_from_def max_def)

lemma send_result:
  "send_body h w = (r1, h1, w1) \<Longrightarrow> send h w = (r, h', w') \<Longrightarrow>
   r = r1 \<and> h' = fst (send_finally h1 w1) \<and> w' = snd (send_finally h1 w1)"
  by (auto simp: send_def split: prod.splits)

section \<open>Sockets closed on the way out of a failed flush\<close>

text \<open>
  No method removes an event from the trace, and \<open>_close\<close> on a handler that holds a
  socket records the \<open>close\<close> call on it.  So a socket that \<open>_send_data\<close> gave up, and a
  socket still held when an exception reaches the handler of \<open>_send\<close>, are closed in
  the trace that \<open>_send\<close> leaves.
\<close>

lemma lib_call_trace_mono: "lib_call ev w = (out, w') \<Longrightarrow> set (trace w) \<subseteq> set (trace w')"
  by (drule lib_call_world) auto

lemma lib_calls_trace_mono: "lib_calls evs w = (r, w') \<Longrightarrow> set (trace w) \<subseteq> set (trace w')"
proof (induction evs arbitrary: w)
  case Nil
  then show ?case by simp
next
  case (Cons ev evs)
  obtain out w1 where c: "lib_call ev w = (out, w1)" by (cases "lib_call ev w")
  note m1 = lib_call_trace_mono [OF c]
  show ?case
  proof (cases out)
    case (Raises e)
    with Cons.prems c have "w' = w1" by simp
    with m1 show ?thesis by simp
  next
    case Returns
    with Cons.prems c have "lib_calls evs w1 = (r, w')" by simp
    from Cons.IH [OF this] m1 show ?thesis by blast
  next
    case ReturnsNone
    with Cons.prems c have "lib_calls evs w1 = (r, w')" by simp
    from Cons.IH [OF this] m1 show ?thesis by blast
  qed
qed

lemma close_trace_mono: "close h w = (h', w') \<Longrightarrow> set (trace w) \<subseteq> set (trace w')"
  by (auto simp: close_def emit_def split: option.splits)

lemma close_emits:
  "close h w = (h', w') \<Longrightarrow> socket h = Some j \<Longrightarrow> Close j \<in> set (trace w')"
  by (auto simp: close_def emit_def)

lemma set_keepalives_trace_mono:
  assumes "set_keepalives h w = (r, w')"
  shows "set (trace w) \<subseteq> set (trace w')"
proof (cases "proto h \<noteq> ''udp'' \<and> keepalive h")
  case True
  let ?w0 = "emit (Log Error ''SensuHandler: Setting socket keepalives...'') w"
  let ?evs = "[SetSockOpt ''SO_KEEPALIVE'' 1,
           SetSockOpt ''TCP_KEEPIDLE'' (keepaliveinterval h),
           SetSockOpt ''TCP_KEEPINTVL'' (keepaliveinterval h),
           SetSockOpt ''TCP_KEEPCNT'' 3]"
  from assms True have "lib_calls ?evs ?w0 = (r, w')"
    unfolding set_keepalives_def by (simp del: lib_calls.simps)
  from lib_calls_trace_mono [OF this] show ?thesis by (auto simp: trace_emit)
next
  case False
  with assms show ?thesis unfolding set_keepalives_def by auto
qed

lemma try_connect_trace_mono:
  assumes "try_connect fd h w = (h', w')"
  shows "set (trace w) \<subseteq> set (trace w')"
proof -
  obtain out w1 where c: "lib_call (Connect fd (host h) (port h)) w = (out, w1)"
    by (cases "lib_call (Connect fd (host h) (port h)) w")
  note m1 = lib_call_trace_mono [OF c]
  show ?thesis
  proof (cases out)
    case (Raises e)
    with assms c have cl: "close h (emit (Log Error ''SensuHandler: Failed to connect.'') w1) = (h', w')"
      by (simp add: try_connect_def)
    from close_trace_mono [OF cl] m1 show ?thesis by (auto simp: trace_emit)
  next
    case Returns
    with assms c m1 show ?thesis by (auto simp: try_connect_def trace_emit)
  next
    case ReturnsNone
    with assms c m1 show ?thesis by (auto simp: try_connect_def trace_emit)
  qed
qed

lemma connect_trace_mono:
  assumes "connect h w = (r, h', w')"
  shows "set (trace w) \<subseteq> set (trace w')"
proof -
  let ?st = "if proto h = ''udp'' then SOCK_DGRAM else SOCK_STREAM"
  obtain out w1 where c: "lib_call (SocketNew ?st) w = (out, w1)"
    by (cases "lib_call (SocketNew ?st) w")
  note m1 = lib_call_trace_mono [OF c]
  show ?thesis
  proof (cases out)
    case (Raises e)
    with assms c m1 show ?thesis by (simp add: connect_def)
  next
    case ReturnsNone
    let ?w2 = "emit (Log Error ''SensuHandler: Unable to create socket.'') w1"
    obtain h2 w2 where cl: "close (h\<lparr>socket := None\<rparr>) ?w2 = (h2, w2)"
      by (cases "close (h\<lparr>socket := None\<rparr>) ?w2")
    with assms c ReturnsNone have e: "w' = w2" by (simp add: connect_def)
    from close_trace_mono [OF cl] m1 e show ?thesis by (auto simp: trace_emit)
  next
    case Returns
    let ?h1 = "h\<lparr>socket := Some (next_fd w1)\<rparr>"
    obtain r2 w2 where k: "set_keepalives ?h1 (w1\<lparr>next_fd := Suc (next_fd w1)\<rparr>) = (r2, w2)"
      by (cases "set_keepalives ?h1 (w1\<lparr>next_fd := Suc (next_fd w1)\<rparr>)")
    have m2: "set (trace w) \<subseteq> set (trace w2)"
      using set_keepalives_trace_mono [OF k] m1 by auto
    show ?thesis
    proof (cases r2)
      case (Inl e)
      with assms c Returns k m2 show ?thesis by (auto simp: connect_def Let_def)
    next
      case (Inr u)
      show ?thesis
      proof (cases "settimeout (timeout h)")
        case (Some e)
        with assms c Returns k Inr m2 show ?thesis
          by (auto simp: connect_def Let_def trace_emit)
      next
        case None
        let ?w3 = "emit (SetTimeout (timeout h)) w2"
        obtain h3 w3 where tc: "try_connect (next_fd w1) ?h1 ?w3 = (h3, w3)"
          by (cases "try_connect (next_fd w1) ?h1 ?w3")
        with assms c Returns k Inr None have e: "w' = w3" by (simp add: connect_def Let_def)
        from try_connect_trace_mono [OF tc] m2 e show ?thesis by (auto simp: trace_emit)
      qed
    qed
  qed
qed

lemma sendall_trace_mono: "sendall d h w = (r, w') \<Longrightarrow> set (trace w) \<subseteq> set (trace w')"
  unfolding sendall_def
  by (auto split: option.splits prod.splits outcome.splits dest!: lib_call_world)

lemma send_finally_trace_mono: "set (trace w) \<subseteq> set (trace (snd (send_finally h w)))"
  using send_finally_trace [of h w] by auto

lemma send_data_fail_closes:
  assumes "send_data d h w = (Inl e, h', w')" and "socket h = Some i"
  shows "Close i \<in> set (trace w')"
proof -
  obtain r1 w1 where s1: "sendall d h w = (r1, w1)" by (cases "sendall d h w")
  show ?thesis
  proof (cases r1)
    case (Inr u)
    with assms s1 show ?thesis by (simp add: send_data_def)
  next
    case (Inl e1)
    obtain h2 w2 where cl: "close h w1 = (h2, w2)" by (cases "close h w1")
    let ?w3 = "emit (Log Error ''SensuHandler: Socket error, trying reconnect.'') w2"
    obtain r4 h4 w4 where co: "connect h2 ?w3 = (r4, h4, w4)" by (cases "connect h2 ?w3")
    from close_emits [OF cl assms(2)] connect_trace_mono [OF co]
    have c4: "Close i \<in> set (trace w4)" by (auto simp: trace_emit)
    show ?thesis
    proof (cases r4)
      case (Inl e4)
      with assms s1 \<open>r1 = Inl e1\<close> cl co have "w' = w4" by (simp add: send_data_def)
      with c4 show ?thesis by simp
    next
      case (Inr u4)
      obtain r5 w5 where s5: "sendall d h4 w4 = (r5, w5)" by (cases "sendall d h4 w4")
      with assms s1 \<open>r1 = Inl e1\<close> cl co Inr have "w' = w5" by (simp add: send_data_def)
      with sendall_trace_mono [OF s5] c4 show ?thesis by auto
    qed
  qed
qed

lemma send_body_trace:
  assumes "send_body h w = (r, h2, w2)" and "send_try h w = (r1, h1, w1)"
  shows "set (trace w1) \<subseteq> set (trace w2)
    \<and> (\<forall>e j. r1 = Inl e \<and> socket h1 = Some j \<longrightarrow> Close j \<in> set (trace w2))"
proof (cases r1)
  case (Inr u)
  with assms show ?thesis by (auto simp: send_body_def)
next
  case (Inl e1)
  obtain h3 w3 where cl: "close h1 w1 = (h3, w3)" by (cases "close h1 w1")
  with assms Inl have e: "w2 = emit (Log Error ''SensuHandler: Error sending metrics.'') w3"
    by (simp add: send_body_def)
  from close_trace_mono [OF cl] close_emits [OF cl] e show ?thesis
    by (auto simp: trace_emit)
qed

lemma send_try_transmit_fail:
  assumes "transmit_result h w = Some (Inl e)" and "ensure_connected h w = (r0, h0, w0)"
    and "send_try h w = (r1, h1, w1)" and "socket h0 = Some i"
  shows "Close i \<in> set (trace w1)"
proof -
  from assms(1,2) obtain u where r0: "r0 = Inr u"
    by (cases r0) (simp_all add: transmit_result_def)
  obtain r2 h2 w2 where sd: "send_data (concat (metrics h0)) h0 w0 = (r2, h2, w2)"
    by (cases "send_data (concat (metrics h0)) h0 w0")
  from assms(1,2,4) r0 sd have r2: "r2 = Inl e" by (simp add: transmit_result_def)
  from assms(2,3,4) r0 sd r2 have "w1 = w2" by (simp add: send_try_def)
  with send_data_fail_closes [of "concat (metrics h0)" h0 w0 e h2 w2 i] sd r2 assms(4)
  show ?thesis by simp
qed

lemma failed_flush_closes_sockets:
  assumes "send h w = (r, h', w')"
  shows "(\<forall>e r0 h0 w0 i. transmit_result h w = Some (Inl e) \<and> ensure_connected h w = (r0, h0, w0)
            \<and> socket h0 = Some i \<longrightarrow> Close i \<in> set (trace w'))
    \<and> (\<forall>e h1 w1 j. send_try h w = (Inl e, h1, w1) \<and> socket h1 = Some j \<longrightarrow>
            Close j \<in> set (trace w'))"
proof -
  obtain rb hb wb where body: "send_body h w = (rb, hb, wb)" by (cases "send_body h w")
  from send_result [OF body assms] have w': "w' = snd (send_finally hb wb)" by simp
  have fin: "set (trace wb) \<subseteq> set (trace w')" unfolding w' by (rule send_finally_trace_mono)
  obtain r1 h1 w1 where st: "send_try h w = (r1, h1, w1)" by (cases "send_try h w")
  note bt = send_body_trace [OF body st]
  have A: "\<forall>e r0 h0 w0 i. transmit_result h w = Some (Inl e) \<and> ensure_connected h w = (r0, h0, w0)
            \<and> socket h0 = Some i \<longrightarrow> Close i \<in> set (trace w')"
    using send_try_transmit_fail [OF _ _ st] bt fin by blast
  have B: "\<forall>e h1 w1 j. send_try h w = (Inl e, h1, w1) \<and> socket h1 = Some j \<longrightarrow>
            Close j \<in> set (trace w')"
    using st bt fin by auto
  from A B show ?thesis by blast
qed

section \<open>What \<open>_connect\<close> absorbs\<close>

text \<open>
  A failure of \<open>self.socket.connect\<close> is caught inside \<open>_connect\<close>: the socket is closed
  and forgotten.  Once the socket exists, the keepalive options are set and
  \<open>settimeout\<close> has accepted the timeout, \<open>_connect\<close> returns normally whatever \<open>self.socket.connect\<close> does.
\<close>

lemma try_connect_refused:
  "lib_call (Connect fd (host h) (port h)) w = (Raises e, w1) \<Longrightarrow>
   socket (fst (try_connect fd h w)) = None"
  by (simp add: try_connect_def close_def split: option.splits)

lemma connect_returns_after_setup:
  assumes "lib_call (SocketNew (if proto h = ''udp'' then SOCK_DGRAM else SOCK_STREAM)) w
             = (Returns, w1)"
    and "set_keepalives (h\<lparr>socket := Some (next_fd w1)\<rparr>) (w1\<lparr>next_fd := Suc (next_fd w1)\<rparr>)
             = (Inr u, w2)"
    and "settimeout (timeout h) = None"
  shows "fst (connect h w) = Inr ()
    \<and> (socket (fst (snd (connect h w))) = None
        \<or> socket (fst (snd (connect h w))) = Some (next_fd w1))"
proof -
  let ?h1 = "h\<lparr>socket := Some (next_fd w1)\<rparr>"
  let ?w3 = "emit (SetTimeout (timeout h)) w2"
  obtain h3 w3 where tc: "try_connect (next_fd w1) ?h1 ?w3 = (h3, w3)"
    by (cases "try_connect (next_fd w1) ?h1 ?w3")
  from assms tc have c: "connect h w = (Inr (), h3, w3)"
    by (simp add: connect_def Let_def)
  have "socket ?h1 = Some (next_fd w1)" by simp
  from try_connect_socket [OF tc this] c show ?thesis by simp
qed

section \<open>The retry of \<open>_send_data\<close>\<close>

text \<open>
  The three ways through \<open>_send_data\<close>: the first \<open>sendall\<close> succeeds; it fails and
  \<open>_connect\<close> returns, then the result is that of the one further \<open>sendall\<close>; it fails
  and \<open>_connect\<close> raises, then that exception is the result and nothing is sent again.
\<close>

lemma send_data_first_try:
  "sendall d h w = (Inr u, w1) \<Longrightarrow> send_data d h w = (Inr (), h, w1)"
  by (simp add: send_data_def)

lemma send_data_retry_when_connect_returns:
  assumes "sendall d h w = (Inl e, w1)" and "close h w1 = (h2, w2)"
    and "connect h2 (emit (Log Error ''SensuHandler: Socket error, trying reconnect.'') w2)
           = (Inr u, h4, w4)"
  shows "send_data d h w = (fst (sendall d h4 w4), h4, snd (sendall d h4 w4))"
  using assms by (simp add: send_data_def split: prod.splits)

lemma send_data_when_connect_raises:
  assumes "sendall d h w = (Inl e, w1)" and "close h w1 = (h2, w2)"
    and "connect h2 (emit (Log Error ''SensuHandler: Socket error, trying reconnect.'') w2)
           = (Inl e', h4, w4)"
  shows "send_data d h w = (Inl e', h4, w4)"
  using assms by (simp add: send_data_def)

section \<open>Encoding and construction\<close>

lemma encodable_entry: "encodable dumps m \<Longrightarrow> \<exists>entry. encode dumps m = Inr entry"
  by (cases "encode dumps m") (simp_all add: encodable_def)

lemma encodable_tokens: "encodable dumps m \<Longrightarrow> 3 \<le> length (split_ws m)"
  by (auto simp: encodable_def encode_def Let_def py_index_def split: sum.splits if_splits)

lemma process_encoded:
  "encode dumps m = Inr entry \<Longrightarrow>
   process dumps m h w =
     (if batch_size h \<le> int (length (metrics h)) + 1
      then flush (h\<lparr>metrics := metrics h @ [entry]\<rparr>) w
      else (Inr (), h\<lparr>metrics := metrics h @ [entry]\<rparr>, w))"
  by (simp add: process_def Let_def flush_def)

lemma process_all_below_batch:
  "\<forall>m \<in> set ms. encodable dumps m \<Longrightarrow>
   int (length (metrics h)) + int (length ms) < batch_size h \<Longrightarrow>
   \<exists>h'. process_all dumps ms h w = (Inr (), h', w)
        \<and> length (metrics h') = length (metrics h) + length ms"
proof (induction ms arbitrary: h)
  case Nil
  then show ?case by simp
next
  case (Cons m ms)
  from Cons.prems(1) have "encodable dumps m" by simp
  then obtain entry where en: "encode dumps m = Inr entry"
    by (blast dest: encodable_entry)
  let ?g = "h\<lparr>metrics := metrics h @ [entry]\<rparr>"
  from Cons.prems(2) have small: "\<not> batch_size h \<le> int (length (metrics h)) + 1" by simp
  from process_encoded [OF en] small
  have p: "process dumps m h w = (Inr (), ?g, w)" by simp
  from Cons.prems(2) have "int (length (metrics ?g)) + int (length ms) < batch_size ?g" by simp
  from Cons.IH [OF _ this] Cons.prems(1)
  obtain h' where "process_all dumps ms ?g w = (Inr (), h', w)"
    "length (metrics h') = length (metrics ?g) + length ms" by auto
  with p show ?case by simp
qed

lemma encode_short: "length (split_ws metric) < 3 \<Longrightarrow> encode dumps metric = Inl IndexError"
  by (simp add: encode_def Let_def py_index_def)



section \<open>Evaluating concrete runs\<close>

lemmas run_defs = send_def send_body_def send_try_def ensure_connected_def send_data_def
  sendall_def connect_def settimeout_def float_limit_def set_keepalives_def try_connect_def
  close_def lib_call_def emit_def
  send_finally_def py_slice_from_def Let_def flush_def policy_def idle_def refused_def calm_def
  outage_def no_descriptors_def broken_pipe_no_descriptors_def broken_pipe_refused_def
  broken_pipe_once_def broken_pipe_twice_def transmit_result_def transmissions_def
  is_sendall_def reconnect_logs_def one_queued_def two_queued_def zero_target_def
  zero_target_one_def connected_def connected_one_def connected_two_def

lemmas encode_defs = process_def encode_def encodable_def split_ws_def is_space_def
  py_index_def sample_dumps_def

lemma triple_collapse: "x = (fst x, fst (snd x), snd (snd x))"
  by simp

lemmas init_defs = init_def init_proto_def py_int_def py_int_str_def unsigned_int_def
  digit_of_def strip_def lower_def lower_char_def py_bool_def default_config_def is_space_def

text \<open>
  Runs of \<open>_send_data\<close> on a connected handler whose first \<open>sendall\<close> raises: the
  reconnect succeeds and the retransmission goes out on the new socket; or the reconnect
  is refused, \<open>_connect\<close> absorbs it, and the second \<open>self.socket.sendall\<close> raises
  AttributeError on \<open>None\<close> without reaching a socket.
\<close>

lemma retry_after_reconnect:
  "send_data ''x'' connected broken_pipe_once
     = (Inr (), idle\<lparr>socket := Some 1\<rparr>,
        \<lparr>pending = [],
         trace = [SendAll 0 ''x'', Close 0,
                  Log Error ''SensuHandler: Socket error, trying reconnect.'',
                  SocketNew SOCK_STREAM, SetTimeout 15, Connect 1 (CStr ''localhost'') 2003,
                  Log Debug ''SensuHandler: Established connection.'', SendAll 1 ''x''],
         next_fd = 2\<rparr>)"
  by (simp add: run_defs)

lemma retry_after_absorbed_reconnect_failure:
  "send_data ''x'' connected broken_pipe_refused
     = (Inl AttributeError, idle,
        \<lparr>pending = [],
         trace = [SendAll 0 ''x'', Close 0,
                  Log Error ''SensuHandler: Socket error, trying reconnect.'',
                  SocketNew SOCK_STREAM, SetTimeout 15, Connect 1 (CStr ''localhost'') 2003,
                  Log Error ''SensuHandler: Failed to connect.'', Close 1],
         next_fd = 2\<rparr>)"
  by (simp add: run_defs)

text \<open>\<open>_send_data\<close> never transmits more than twice, and only the payload it was given.\<close>

lemma send_data_at_most_two_sends:
  assumes "send_data d h w = (r, h', w')"
  shows "\<exists>js. length js \<le> 2 \<and> transmissions w' = transmissions w @ map (\<lambda>j. SendAll j d) js"
proof -
  obtain r1 w1 where s1: "sendall d h w = (r1, w1)" by (cases "sendall d h w")
  from sendall_transmissions_le [OF s1]
  obtain js1 where j1: "length js1 \<le> 1" "transmissions w1 = transmissions w @ map (\<lambda>j. SendAll j d) js1"
  proof (elim disjE exE)
    assume "transmissions w1 = transmissions w"
    then have "length ([]::nat list) \<le> 1 \<and> transmissions w1 = transmissions w @ map (\<lambda>j. SendAll j d) []"
      by simp
    then show ?thesis using that by blast
  next
    fix j assume "transmissions w1 = transmissions w @ [SendAll j d]"
    then have "length [j] \<le> 1 \<and> transmissions w1 = transmissions w @ map (\<lambda>j. SendAll j d) [j]"
      by simp
    then show ?thesis using that by blast
  qed
  show ?thesis
  proof (cases r1)
    case (Inr u)
    with assms s1 have "w' = w1" by (simp add: send_data_def)
    with j1 have "length js1 \<le> 2 \<and> transmissions w' = transmissions w @ map (\<lambda>j. SendAll j d) js1"
      by simp
    then show ?thesis by blast
  next
    case (Inl e1)
    obtain h2 w2 where cl: "close h w1 = (h2, w2)" by (cases "close h w1")
    let ?w3 = "emit (Log Error ''SensuHandler: Socket error, trying reconnect.'') w2"
    obtain r4 h4 w4 where co: "connect h2 ?w3 = (r4, h4, w4)" by (cases "connect h2 ?w3")
    from close_transmissions [OF cl] connect_frame [OF co]
    have t4: "transmissions w4 = transmissions w1"
      by (simp add: transmissions_emit is_sendall_def)
    show ?thesis
    proof (cases r4)
      case (Inl e4)
      with assms s1 \<open>r1 = Inl e1\<close> cl co have "w' = w4" by (simp add: send_data_def)
      with t4 j1 have "length js1 \<le> 2 \<and> transmissions w' = transmissions w @ map (\<lambda>j. SendAll j d) js1"
        by simp
      then show ?thesis by blast
    next
      case (Inr u4)
      obtain r5 w5 where s5: "sendall d h4 w4 = (r5, w5)" by (cases "sendall d h4 w4")
      with assms s1 \<open>r1 = Inl e1\<close> cl co Inr have e: "w' = w5" by (simp add: send_data_def)
      from sendall_transmissions_le [OF s5] show ?thesis
      proof (elim disjE exE)
        assume "transmissions w5 = transmissions w4"
        with e t4 j1 have "length js1 \<le> 2 \<and> transmissions w' = transmissions w @ map (\<lambda>j. SendAll j d) js1"
          by simp
        then show ?thesis by blast
      next
        fix j assume "transmissions w5 = transmissions w4 @ [SendAll j d]"
        with e t4 j1 have "length (js1 @ [j]) \<le> 2
           \<and> transmissions w' = transmissions w @ map (\<lambda>j. SendAll j d) (js1 @ [j])"
          by simp
        then show ?thesis by blast
      qed
    qed
  qed
qed

text \<open>
  Runs that start from a freshly constructed, unconnected handler during an outage.  With
  a trim target of zero the backlog keeps growing; with the policy \<open>1, 2, 1\<close> the flush of
  the second \<open>process\<close> call starts with two entries and drops the older one.
\<close>

lemma zero_trim_target_backlog_grows:
  "length (metrics (fst (snd (process_all sample_dumps [''cpu 1 10'', ''mem 2 11'', ''net 3 12'']
      (policy 1 2 0 idle) outage)))) = 3"
  by (simp add: run_defs encode_defs)

lemma outage_trim_drops_oldest:
  "metrics (fst (snd (process_all sample_dumps [''cpu 1 10'', ''mem 2 11'']
      (policy 1 2 1 idle) outage))) = [''output=2;issued=11;name=mem;'' @ [CHR 0x0A]]"
  by (simp add: run_defs encode_defs)

text \<open>\<open>settimeout\<close> on a timeout beyond the range of a double leaves \<open>_connect\<close>.\<close>

lemma huge_timeout_raises:
  "fst (connect (idle\<lparr>timeout := 2 ^ 1024\<rparr>) calm) = Inl OverflowError"
  by (simp add: run_defs)

text \<open>The constructor accepts a batch size and a trim multiplier of zero as well.\<close>

lemma init_accepts_zero_batch_and_trim:
  "fst (init (default_config\<lparr>c_batch := CInt 0, c_trim_backlog_multiplier := CInt 0\<rparr>) calm)
     = Inr (policy 0 5 0 connected)"
  by (simp add: init_defs run_defs)

section \<open>The trimming step\<close>

text \<open>
  The \<open>finally\<close> block of \<open>_send\<close> for any policy with a positive trim target that is
  not above the bound, and what the slice leaves when the backlog has at least as many
  entries as the trim target.
\<close>

lemma flush_trim_step:
  assumes body: "send_body h w = (r, h1, w1)"
    and pos: "0 < batch_size h * trim_backlog_multiplier h"
    and le: "batch_size h * trim_backlog_multiplier h \<le> batch_size h * max_backlog_multiplier h"
  shows "\<exists>h' w'. send h w = (r, h', w') \<and> (h', w') = send_finally h1 w1
      \<and> int (length (metrics h')) \<le> batch_size h * max_backlog_multiplier h
      \<and> (batch_size h * max_backlog_multiplier h \<le> int (length (metrics h1)) \<longrightarrow>
           int (length (metrics h')) = batch_size h * trim_backlog_multiplier h
           \<and> metrics h' = drop (length (metrics h1) - nat (batch_size h * trim_backlog_multiplier h))
                             (metrics h1))
      \<and> (int (length (metrics h1)) < batch_size h * max_backlog_multiplier h \<longrightarrow>
           metrics h' = metrics h1)"
proof -
  let ?k = "batch_size h * trim_backlog_multiplier h"
  let ?b = "batch_size h * max_backlog_multiplier h"
  let ?h' = "fst (send_finally h1 w1)"
  from send_body_result [OF body] have sc: "same_config h h1" by simp
  have m: "metrics ?h' =
     (if ?b \<le> int (length (metrics h1)) then py_slice_from (- ?k) (metrics h1) else metrics h1)"
    using sc by (simp add: send_finally_metrics same_config_def)
  have fires: "?b \<le> int (length (metrics h1)) \<Longrightarrow>
     int (length (metrics ?h')) = ?k \<and> metrics ?h' = drop (length (metrics h1) - nat ?k) (metrics h1)"
  proof -
    assume f: "?b \<le> int (length (metrics h1))"
    with le have kle: "?k \<le> int (length (metrics h1))" by linarith
    have s1: "py_slice_from (- ?k) (metrics h1) = drop (length (metrics h1) - nat ?k) (metrics h1)"
      and s2: "int (length (py_slice_from (- ?k) (metrics h1))) = ?k"
      using slice_last_length [OF pos kle] by blast+
    have mm: "metrics ?h' = py_slice_from (- ?k) (metrics h1)" using m f by simp
    show ?thesis
    proof (intro conjI)
      show "int (length (metrics ?h')) = ?k" by (simp only: mm s2)
      show "metrics ?h' = drop (length (metrics h1) - nat ?k) (metrics h1)" by (simp only: mm s1)
    qed
  qed
  have bound: "int (length (metrics ?h')) \<le> ?b"
  proof (cases "?b \<le> int (length (metrics h1))")
    case True
    with fires le show ?thesis by simp
  next
    case False
    with m show ?thesis by simp
  qed
  have quiet: "int (length (metrics h1)) < ?b \<Longrightarrow> metrics ?h' = metrics h1"
    using m by simp
  have sd: "send h w = (r, ?h', snd (send_finally h1 w1))" by (rule send_unfold [OF body])
  have pr: "(?h', snd (send_finally h1 w1)) = send_finally h1 w1" by simp
  show ?thesis
    by (rule exI [of _ ?h'], rule exI [of _ "snd (send_finally h1 w1)"])
       (use sd pr bound fires quiet in blast)
qed

lemma trim_last_entries:
  assumes full: "batch_size h * max_backlog_multiplier h \<le> int (length (metrics h))"
    and pos: "0 < batch_size h * trim_backlog_multiplier h"
    and fits: "batch_size h * trim_backlog_multiplier h \<le> int (length (metrics h))"
  shows "metrics (fst (send_finally h w)) =
           drop (length (metrics h) - nat (batch_size h * trim_backlog_multiplier h)) (metrics h)
    \<and> int (length (metrics (fst (send_finally h w)))) = batch_size h * trim_backlog_multiplier h"
proof -
  have m: "metrics (fst (send_finally h w)) =
     py_slice_from (- (batch_size h * trim_backlog_multiplier h)) (metrics h)"
    using full by (simp add: send_finally_metrics)
  have s1: "py_slice_from (- (batch_size h * trim_backlog_multiplier h)) (metrics h) =
      drop (length (metrics h) - nat (batch_size h * trim_backlog_multiplier h)) (metrics h)"
    and s2: "int (length (py_slice_from (- (batch_size h * trim_backlog_multiplier h)) (metrics h)))
      = batch_size h * trim_backlog_multiplier h"
    using slice_last_length [OF pos fits] by blast+
  show ?thesis
  proof (intro conjI)
    show "metrics (fst (send_finally h w)) =
           drop (length (metrics h) - nat (batch_size h * trim_backlog_multiplier h)) (metrics h)"
      by (simp only: m s1)
    show "int (length (metrics (fst (send_finally h w)))) = batch_size h * trim_backlog_multiplier h"
      by (simp only: m s2)
  qed
qed

text \<open>
  A trim target of zero is outside these conditions: the offset is \<open>0\<close>, the slice
  \<open>self.metrics[0:]\<close> is the whole backlog, and the log line of the trimming step
  announces that the newest zero entries are kept.
\<close>

lemma zero_trim_target_flush_keeps_everything:
  "fst (send zero_target refused) = Inr ()
   \<and> LogTrim 3 0 \<in> set (trace (snd (snd (send zero_target refused))))
   \<and> metrics (fst (snd (send zero_target refused)))
       = [''a'', ''b'', ''c'']
   \<and> \<not> int (length (metrics (fst (snd (send zero_target refused)))))
         \<le> batch_size zero_target * max_backlog_multiplier zero_target
   \<and> int (length (metrics (fst (snd (send zero_target refused)))))
         \<noteq> batch_size zero_target * trim_backlog_multiplier zero_target"
  by (simp add: run_defs)

lemma zero_trim_target_slice_keeps_everything:
  "batch_size zero_target_one * max_backlog_multiplier zero_target_one
     \<le> int (length (metrics zero_target_one))
   \<and> metrics (fst (send_finally zero_target_one calm)) = [''a'']
   \<and> drop (length (metrics zero_target_one)
            - nat (batch_size zero_target_one * trim_backlog_multiplier zero_target_one))
       (metrics zero_target_one) = []"
  by (simp add: run_defs)

section \<open>The claims\<close>

subsection \<open>C1: the final step of every flush bounds the backlog\<close>

text \<open>
  Claim C1.  Whatever the body of \<open>_send\<close> did (sent, found no connection, or raised),
  \<open>_send\<close> returns the body's result after the \<open>finally\<close> block has run on the body's
  final state: the backlog length is compared with
  \<open>batch_size * max_backlog_multiplier\<close> and the backlog is trimmed when it has reached
  that bound.  Under the configuration invariant of the specification
  (\<open>batch_size \<ge> 1\<close>, \<open>1 \<le> trim_backlog_multiplier < max_backlog_multiplier\<close>) the
  backlog length after the flush never exceeds the bound, and when trimming fires the
  backlog becomes its newest \<open>batch_size * trim_backlog_multiplier\<close> entries.
\<close>

theorem flush_bounds_backlog:
  assumes body: "send_body h w = (r, h1, w1)"
    and batch: "1 \<le> batch_size h"
    and trim: "1 \<le> trim_backlog_multiplier h"
    and below: "trim_backlog_multiplier h < max_backlog_multiplier h"
  shows "\<exists>h' w'. send h w = (r, h', w') \<and> (h', w') = send_finally h1 w1
      \<and> int (length (metrics h')) \<le> batch_size h * max_backlog_multiplier h
      \<and> (batch_size h * max_backlog_multiplier h \<le> int (length (metrics h1)) \<longrightarrow>
           int (length (metrics h')) = batch_size h * trim_backlog_multiplier h
           \<and> metrics h' = drop (length (metrics h1) - nat (batch_size h * trim_backlog_multiplier h))
                             (metrics h1))
      \<and> (int (length (metrics h1)) < batch_size h * max_backlog_multiplier h \<longrightarrow>
           metrics h' = metrics h1)"
proof -
  from batch trim have pos: "0 < batch_size h * trim_backlog_multiplier h" by simp
  from batch below
  have le: "batch_size h * trim_backlog_multiplier h \<le> batch_size h * max_backlog_multiplier h"
    by (simp add: mult_left_mono)
  from flush_trim_step [OF body pos le] show ?thesis .
qed

text \<open>
  The theorem at the policy \<open>1, 2, 1\<close> with two entries queued and the server refusing
  the connection: trimming fires and leaves one entry.
\<close>

theorem flush_bounds_backlog_witness:
  "1 \<le> batch_size two_queued
   \<and> 1 \<le> trim_backlog_multiplier two_queued
   \<and> trim_backlog_multiplier two_queued < max_backlog_multiplier two_queued
   \<and> fst (send two_queued refused) = Inr ()
   \<and> int (length (metrics (fst (snd (send two_queued refused)))))
       \<le> batch_size two_queued * max_backlog_multiplier two_queued
   \<and> int (length (metrics (fst (snd (send two_queued refused))))) = 1"
proof -
  let ?h = "two_queued"
  have p: "1 \<le> batch_size ?h" by (simp add: run_defs)
  have q: "1 \<le> trim_backlog_multiplier ?h" by (simp add: run_defs)
  have l: "trim_backlog_multiplier ?h < max_backlog_multiplier ?h" by (simp add: run_defs)
  have b: "send_body ?h refused =
     (fst (send_body ?h refused), fst (snd (send_body ?h refused)), snd (snd (send_body ?h refused)))"
    by (rule triple_collapse)
  have r: "fst (send_body ?h refused) = Inr ()" by (simp add: run_defs)
  have f: "batch_size ?h * max_backlog_multiplier ?h
             \<le> int (length (metrics (fst (snd (send_body ?h refused)))))"
    by (simp add: run_defs)
  from flush_bounds_backlog [OF b p q l] obtain h' w'
    where s: "send ?h refused = (fst (send_body ?h refused), h', w')"
      and bnd: "int (length (metrics h')) \<le> batch_size ?h * max_backlog_multiplier ?h"
      and fire: "batch_size ?h * max_backlog_multiplier ?h
                   \<le> int (length (metrics (fst (snd (send_body ?h refused))))) \<longrightarrow>
                 int (length (metrics h')) = batch_size ?h * trim_backlog_multiplier ?h
                 \<and> metrics h' =
                     drop (length (metrics (fst (snd (send_body ?h refused))))
                           - nat (batch_size ?h * trim_backlog_multiplier ?h))
                       (metrics (fst (snd (send_body ?h refused))))"
    by blast
  from fire f have "int (length (metrics h')) = batch_size ?h * trim_backlog_multiplier ?h"
    by blast
  with s r bnd have "fst (send ?h refused) = Inr ()"
    and "int (length (metrics (fst (snd (send ?h refused)))))
           \<le> batch_size ?h * max_backlog_multiplier ?h"
    and "int (length (metrics (fst (snd (send ?h refused))))) = 1"
    by (simp_all add: run_defs)
  with p q l show ?thesis by blast
qed

subsection \<open>C2: a failed flush keeps the backlog\<close>

text \<open>
  Claim C2.  If \<open>_send_data\<close> (the transmission with its one retry) raises, \<open>_send\<close>
  raises the same exception and leaves the handler without a socket; whenever \<open>_send\<close>
  raises, the handler has no socket and no transmission has succeeded.  The connection
  is closed in the trace as well: the socket on which the transmission started has its
  \<open>close\<close> call recorded, and so has any socket still held when the exception reaches
  the handler of \<open>_send\<close>.  Unless
  \<open>_send_data\<close> returned normally, the backlog after the flush is the backlog before
  it, touched by the trimming of the \<open>finally\<close> block only; in particular it is never
  emptied (for a positive trim target, a non-empty backlog stays non-empty).  The
  backlog is cleared only when \<open>_send_data\<close> reported success.
\<close>

theorem failed_flush_keeps_backlog:
  assumes "send h w = (r, h', w')"
  shows "(\<forall>e. transmit_result h w = Some (Inl e) \<longrightarrow> r = Inl e \<and> socket h' = None)
    \<and> ((\<exists>e. r = Inl e) \<longrightarrow> socket h' = None \<and> transmit_result h w \<noteq> Some (Inr ()))
    \<and> (transmit_result h w \<noteq> Some (Inr ()) \<longrightarrow>
         metrics h' =
           (if batch_size h * max_backlog_multiplier h \<le> int (length (metrics h))
            then py_slice_from (- (batch_size h * trim_backlog_multiplier h)) (metrics h)
            else metrics h))
    \<and> (transmit_result h w \<noteq> Some (Inr ()) \<and> metrics h \<noteq> []
         \<and> 0 < batch_size h * trim_backlog_multiplier h \<longrightarrow> metrics h' \<noteq> [])
    \<and> (\<forall>e r0 h0 w0 i. transmit_result h w = Some (Inl e)
            \<and> ensure_connected h w = (r0, h0, w0) \<and> socket h0 = Some i \<longrightarrow>
            Close i \<in> set (trace w'))
    \<and> (\<forall>e h1 w1 j. send_try h w = (Inl e, h1, w1) \<and> socket h1 = Some j \<longrightarrow>
            Close j \<in> set (trace w'))"
proof -
  obtain r1 h1 w1 where body: "send_body h w = (r1, h1, w1)" by (cases "send_body h w")
  note f = send_body_result [OF body]
  from send_result [OF body assms]
  have e: "r = r1" "h' = fst (send_finally h1 w1)" by simp_all
  from f have sc: "same_config h h1" by simp
  have A: "\<forall>e. transmit_result h w = Some (Inl e) \<longrightarrow> r = Inl e \<and> socket h' = None"
    using f e by (auto simp: send_finally_frame)
  have A': "(\<exists>e. r = Inl e) \<longrightarrow> socket h' = None \<and> transmit_result h w \<noteq> Some (Inr ())"
    using f e by (auto simp: send_finally_frame)
  have B: "transmit_result h w \<noteq> Some (Inr ()) \<Longrightarrow>
         metrics h' =
           (if batch_size h * max_backlog_multiplier h \<le> int (length (metrics h))
            then py_slice_from (- (batch_size h * trim_backlog_multiplier h)) (metrics h)
            else metrics h)"
  proof -
    assume n: "transmit_result h w \<noteq> Some (Inr ())"
    from send_body_keeps_backlog [OF body n] sc e show ?thesis
      by (simp add: send_finally_metrics same_config_def)
  qed
  have C: "transmit_result h w \<noteq> Some (Inr ()) \<Longrightarrow> metrics h \<noteq> [] \<Longrightarrow>
         0 < batch_size h * trim_backlog_multiplier h \<Longrightarrow> metrics h' \<noteq> []"
    using B slice_nonempty by (simp split: if_splits)
  from failed_flush_closes_sockets [OF assms]
  have D: "\<forall>e r0 h0 w0 i. transmit_result h w = Some (Inl e)
            \<and> ensure_connected h w = (r0, h0, w0) \<and> socket h0 = Some i \<longrightarrow>
            Close i \<in> set (trace w')"
    and E: "\<forall>e h1 w1 j. send_try h w = (Inl e, h1, w1) \<and> socket h1 = Some j \<longrightarrow>
            Close j \<in> set (trace w')"
    by blast+
  have ABC: "(\<forall>e. transmit_result h w = Some (Inl e) \<longrightarrow> r = Inl e \<and> socket h' = None)
    \<and> ((\<exists>e. r = Inl e) \<longrightarrow> socket h' = None \<and> transmit_result h w \<noteq> Some (Inr ()))
    \<and> (transmit_result h w \<noteq> Some (Inr ()) \<longrightarrow>
         metrics h' =
           (if batch_size h * max_backlog_multiplier h \<le> int (length (metrics h))
            then py_slice_from (- (batch_size h * trim_backlog_multiplier h)) (metrics h)
            else metrics h))
    \<and> (transmit_result h w \<noteq> Some (Inr ()) \<and> metrics h \<noteq> []
         \<and> 0 < batch_size h * trim_backlog_multiplier h \<longrightarrow> metrics h' \<noteq> [])"
    using A A' B C by blast
  from ABC D E show ?thesis by (intro conjI) (blast+)
qed

text \<open>
  The theorem on a connected handler whose transmission and retransmission both fail.
\<close>

theorem failed_flush_keeps_backlog_witness:
  "transmit_result connected_one broken_pipe_twice = Some (Inl SocketError)
   \<and> fst (ensure_connected connected_one broken_pipe_twice) = Inr ()
   \<and> socket (fst (snd (ensure_connected connected_one broken_pipe_twice))) = Some 0
   \<and> fst (send_try connected_one broken_pipe_twice) = Inl SocketError
   \<and> socket (fst (snd (send_try connected_one broken_pipe_twice))) = Some 1
   \<and> fst (send connected_one broken_pipe_twice) = Inl SocketError
   \<and> socket (fst (snd (send connected_one broken_pipe_twice))) = None
   \<and> metrics (fst (snd (send connected_one broken_pipe_twice))) = [''a'']
   \<and> Close 0 \<in> set (trace (snd (snd (send connected_one broken_pipe_twice))))
   \<and> Close 1 \<in> set (trace (snd (snd (send connected_one broken_pipe_twice))))"
proof -
  let ?h = "connected_one"
  let ?w = "broken_pipe_twice"
  let ?s = "send ?h ?w"
  let ?c = "ensure_connected ?h ?w"
  let ?t = "send_try ?h ?w"
  have t: "transmit_result ?h ?w = Some (Inl SocketError)" by (simp add: run_defs)
  have s: "?s = (fst ?s, fst (snd ?s), snd (snd ?s))" by (rule triple_collapse)
  have n: "\<not> batch_size ?h * max_backlog_multiplier ?h \<le> int (length (metrics ?h))"
    by (simp add: run_defs)
  have c: "?c = (fst ?c, fst (snd ?c), snd (snd ?c))" by (rule triple_collapse)
  have c1: "fst ?c = Inr ()" by (simp add: run_defs)
  have c2: "socket (fst (snd ?c)) = Some 0" by (simp add: run_defs)
  have t1: "fst ?t = Inl SocketError" by (simp add: run_defs)
  then have tt: "?t = (Inl SocketError, fst (snd ?t), snd (snd ?t))"
    using triple_collapse [of ?t] by simp
  have t2: "socket (fst (snd ?t)) = Some 1" by (simp add: run_defs)
  note th = failed_flush_keeps_backlog [OF s]
  from th t n
  have r: "fst ?s = Inl SocketError" "socket (fst (snd ?s)) = None"
    "metrics (fst (snd ?s)) = metrics ?h"
    by auto
  from th t c c2 have k0: "Close 0 \<in> set (trace (snd (snd ?s)))" by blast
  from th tt t2 have k1: "Close 1 \<in> set (trace (snd (snd ?s)))" by blast
  have m: "metrics ?h = [''a'']" by (simp add: connected_one_def)
  from t c1 c2 t1 t2 r k0 k1 m show ?thesis by simp
qed

subsection \<open>C3: one reconnect and one retransmission\<close>

text \<open>
  Claim C3 on a run where the code departs from it.  The first \<open>sendall\<close> raises; during
  the reconnect \<open>socket.socket\<close> raises (no file descriptor left).  That call is outside
  the \<open>try\<close> of \<open>_connect\<close>, so the exception leaves \<open>_connect\<close> and \<open>_send_data\<close>: the
  trace ends with the failed socket creation, and the only transmission is the first
  one.  No retransmission of the payload is attempted.  (When \<open>_connect\<close> returns, the
  retry is as claimed: \<open>send_data_retry_when_connect_returns\<close>,
  \<open>retry_after_reconnect\<close>, \<open>retry_after_absorbed_reconnect_failure\<close>,
  \<open>send_data_at_most_two_sends\<close>.)
\<close>

theorem no_retransmit_when_socket_creation_fails:
  "fst (send_data ''x'' connected broken_pipe_no_descriptors) = Inl SocketError
   \<and> trace (snd (snd (send_data ''x'' connected broken_pipe_no_descriptors)))
       = [SendAll 0 ''x'', Close 0,
          Log Error ''SensuHandler: Socket error, trying reconnect.'', SocketNew SOCK_STREAM]
   \<and> transmissions (snd (snd (send_data ''x'' connected broken_pipe_no_descriptors)))
       = [SendAll 0 ''x'']"
  by (simp add: run_defs)

subsection \<open>C4: trimming keeps the newest entries\<close>

text \<open>
  Claim C4.  Under the configuration invariant of the specification
  (\<open>batch_size \<ge> 1\<close>, \<open>1 \<le> trim_backlog_multiplier < max_backlog_multiplier\<close>), for a
  backlog of \<open>N\<close> entries with \<open>N \<ge> batch_size * max_backlog_multiplier\<close> and the trim
  target \<open>k = batch_size * trim_backlog_multiplier\<close>, the \<open>finally\<close> block of \<open>_send\<close>
  leaves exactly the last \<open>k\<close> entries, in their order.
\<close>

theorem trim_keeps_newest:
  assumes full: "batch_size h * max_backlog_multiplier h \<le> int (length (metrics h))"
    and batch: "1 \<le> batch_size h"
    and trim: "1 \<le> trim_backlog_multiplier h"
    and below: "trim_backlog_multiplier h < max_backlog_multiplier h"
  shows "metrics (fst (send_finally h w)) =
           drop (length (metrics h) - nat (batch_size h * trim_backlog_multiplier h)) (metrics h)
    \<and> int (length (metrics (fst (send_finally h w)))) = batch_size h * trim_backlog_multiplier h"
proof -
  from batch trim have pos: "0 < batch_size h * trim_backlog_multiplier h" by simp
  from batch below
  have "batch_size h * trim_backlog_multiplier h \<le> batch_size h * max_backlog_multiplier h"
    by (simp add: mult_left_mono)
  with full have fits: "batch_size h * trim_backlog_multiplier h \<le> int (length (metrics h))"
    by linarith
  from trim_last_entries [OF full pos fits] show ?thesis .
qed

text \<open>
  The theorem at the policy \<open>1, 2, 1\<close> with two entries: the newer one survives.
\<close>

theorem trim_keeps_newest_witness:
  "batch_size two_queued * max_backlog_multiplier two_queued
     \<le> int (length (metrics two_queued))
   \<and> 1 \<le> batch_size two_queued
   \<and> 1 \<le> trim_backlog_multiplier two_queued
   \<and> trim_backlog_multiplier two_queued < max_backlog_multiplier two_queued
   \<and> metrics (fst (send_finally two_queued calm)) = [''b'']"
proof -
  let ?h = "two_queued"
  have a: "batch_size ?h * max_backlog_multiplier ?h \<le> int (length (metrics ?h))"
    by (simp add: run_defs)
  have b: "1 \<le> batch_size ?h" by (simp add: run_defs)
  have c: "1 \<le> trim_backlog_multiplier ?h" by (simp add: run_defs)
  have d: "trim_backlog_multiplier ?h < max_backlog_multiplier ?h" by (simp add: run_defs)
  from trim_keeps_newest [OF a b c d, of calm]
  have "metrics (fst (send_finally ?h calm)) =
          drop (length (metrics ?h) - nat (batch_size ?h * trim_backlog_multiplier ?h)) (metrics ?h)"
    by simp
  then have "metrics (fst (send_finally ?h calm)) = [''b'']" by (simp add: run_defs)
  with a b c d show ?thesis by blast
qed

subsection \<open>C5: what \<open>_connect\<close> lets through\<close>

text \<open>
  Claim C5 on a run where the code departs from it: \<open>socket.socket\<close> raises, the
  exception leaves \<open>_connect\<close>.  The test \<open>self.socket is None\<close> that follows the call
  in the source is never reached.  (A failure of \<open>self.socket.connect\<close> is absorbed:
  \<open>try_connect_refused\<close>, \<open>connect_returns_after_setup\<close>.)
\<close>

theorem connect_raises_when_socket_creation_fails:
  "connect idle no_descriptors
     = (Inl SocketError, idle, \<lparr>pending = [], trace = [SocketNew SOCK_STREAM], next_fd = 0\<rparr>)"
  by (simp add: run_defs)

subsection \<open>C6: what the constructor checks\<close>




subsection \<open>C7: a flush without a connection\<close>

text \<open>
  Claim C7, as amended.  If \<open>_send\<close> starts without a socket and its connect attempt
  returns without one, \<open>_send\<close> logs, returns normally, transmits nothing, and changes the
  backlog only by the trimming of the \<open>finally\<close> block: the backlog is unchanged when it
  is shorter than \<open>batch_size * max_backlog_multiplier\<close>, and is cut to the slice
  \<open>metrics[-(batch_size * trim_backlog_multiplier):]\<close> otherwise.
\<close>

theorem flush_without_connection:
  assumes none: "socket h = None"
    and ec: "ensure_connected h w = (Inr u, h1, w1)"
    and still: "socket h1 = None"
    and run: "send h w = (r, h', w')"
  shows "r = Inr () \<and> socket h' = None \<and> transmissions w' = transmissions w
    \<and> Log Debug ''SensuHandler: Reconnect failed.'' \<in> set (trace w')
    \<and> metrics h' =
         (if batch_size h * max_backlog_multiplier h \<le> int (length (metrics h))
          then py_slice_from (- (batch_size h * trim_backlog_multiplier h)) (metrics h)
          else metrics h)"
proof -
  let ?w2 = "emit (Log Debug ''SensuHandler: Reconnect failed.'') w1"
  note f = ensure_connected_frame [OF ec]
  from send_try_no_socket [OF ec still]
  have body: "send_body h w = (Inr (), h1, ?w2)" by (simp add: send_body_def)
  from send_result [OF body run]
  have e: "r = Inr ()" "h' = fst (send_finally h1 ?w2)" "w' = snd (send_finally h1 ?w2)"
    by simp_all
  have s: "socket h' = None" using e still by (simp add: send_finally_frame)
  have t: "transmissions w' = transmissions w"
    using e f by (simp add: send_finally_transmissions transmissions_emit is_sendall_def)
  from send_finally_trace [of h1 ?w2] e
  have l: "Log Debug ''SensuHandler: Reconnect failed.'' \<in> set (trace w')"
    by (auto simp: trace_emit)
  have m: "metrics h' =
         (if batch_size h * max_backlog_multiplier h \<le> int (length (metrics h))
          then py_slice_from (- (batch_size h * trim_backlog_multiplier h)) (metrics h)
          else metrics h)"
    using e f by (simp add: send_finally_metrics same_config_def)
  from e s t l m show ?thesis by simp
qed

text \<open>
  The theorem at the policy \<open>1, 2, 1\<close> with one entry and the server refusing the
  connection: the entry stays.
\<close>

theorem flush_without_connection_witness:
  "socket one_queued = None
   \<and> fst (ensure_connected one_queued refused) = Inr ()
   \<and> socket (fst (snd (ensure_connected one_queued refused))) = None
   \<and> fst (send one_queued refused) = Inr ()
   \<and> transmissions (snd (snd (send one_queued refused))) = []
   \<and> metrics (fst (snd (send one_queued refused))) = [''a'']"
proof -
  let ?h = "one_queued"
  let ?c = "ensure_connected ?h refused"
  let ?s = "send ?h refused"
  have n: "socket ?h = None" by (simp add: run_defs)
  have r: "fst ?c = Inr ()" by (simp add: run_defs)
  have c: "?c = (Inr (), fst (snd ?c), snd (snd ?c))" using r triple_collapse [of ?c] by simp
  have d: "socket (fst (snd ?c)) = None" by (simp add: run_defs)
  have s: "?s = (fst ?s, fst (snd ?s), snd (snd ?s))" by (rule triple_collapse)
  have q: "\<not> batch_size ?h * max_backlog_multiplier ?h \<le> int (length (metrics ?h))"
    by (simp add: run_defs)
  have t0: "transmissions refused = []" by (simp add: run_defs)
  from flush_without_connection [OF n c d s] q t0
  have "fst ?s = Inr ()" "transmissions (snd (snd ?s)) = []" "metrics (fst (snd ?s)) = metrics ?h"
    by auto
  with n r d show ?thesis by (simp add: run_defs)
qed

text \<open>
  Claim C7 as stated fails at the same policy with two entries queued, the state in
  which the flush of the second \<open>process\<close> call starts during an outage
  (\<open>outage_trim_drops_oldest\<close>): the flush returns normally without a connection, and
  the older entry is gone.
\<close>

theorem flush_trims_without_connection_counterexample:
  "socket two_queued = None
   \<and> fst (ensure_connected two_queued refused) = Inr ()
   \<and> socket (fst (snd (ensure_connected two_queued refused))) = None
   \<and> fst (send two_queued refused) = Inr ()
   \<and> ''a'' \<in> set (metrics two_queued)
   \<and> ''a'' \<notin> set (metrics (fst (snd (send two_queued refused))))
   \<and> metrics (fst (snd (send two_queued refused))) = [''b'']"
  by (simp add: run_defs)

subsection \<open>C8: batching in \<open>process\<close>\<close>

text \<open>
  Claim C8, as amended.  For metrics whose encoding succeeds: starting from an empty
  backlog, fewer than \<open>batch_size\<close> calls of \<open>process\<close> leave the world untouched (no
  socket call, no transmission) and the backlog as long as the number of calls; and
  every call of \<open>process\<close>, in any state, is the append of the entry followed by exactly
  one flush if the backlog has then at least \<open>batch_size\<close> entries, and by no flush
  otherwise.  So a flush follows every call made while the backlog is at or above the
  threshold, not only the call that reaches it.
\<close>

theorem process_batches:
  assumes wf: "\<forall>m \<in> set ms. encodable dumps m"
  shows "(metrics h = [] \<and> int (length ms) < batch_size h \<longrightarrow>
           (\<exists>h'. process_all dumps ms h w = (Inr (), h', w) \<and> length (metrics h') = length ms))
    \<and> (\<forall>m \<in> set ms. \<forall>g v. \<exists>entry. encode dumps m = Inr entry
          \<and> process dumps m g v =
              (if batch_size g \<le> int (length (metrics g)) + 1
               then flush (g\<lparr>metrics := metrics g @ [entry]\<rparr>) v
               else (Inr (), g\<lparr>metrics := metrics g @ [entry]\<rparr>, v)))"
proof (intro conjI impI ballI allI)
  assume a: "metrics h = [] \<and> int (length ms) < batch_size h"
  then have "int (length (metrics h)) + int (length ms) < batch_size h" by simp
  from process_all_below_batch [OF wf this] a
  show "\<exists>h'. process_all dumps ms h w = (Inr (), h', w) \<and> length (metrics h') = length ms"
    by simp
next
  fix m g v
  assume "m \<in> set ms"
  with wf have "encodable dumps m" by blast
  then obtain entry where en: "encode dumps m = Inr entry" by (blast dest: encodable_entry)
  from process_encoded [OF en] en
  show "\<exists>entry. encode dumps m = Inr entry
          \<and> process dumps m g v =
              (if batch_size g \<le> int (length (metrics g)) + 1
               then flush (g\<lparr>metrics := metrics g @ [entry]\<rparr>) v
               else (Inr (), g\<lparr>metrics := metrics g @ [entry]\<rparr>, v))"
    by blast
qed

text \<open>
  The theorem at one metric with batch size two (below the threshold), and at batch
  size one (the call is one flush of the backlog with the new entry).
\<close>

theorem process_batches_witness:
  "encodable sample_dumps ''cpu 1 10''
   \<and> metrics (policy 2 5 4 idle) = []
   \<and> int (length [''cpu 1 10'']) < batch_size (policy 2 5 4 idle)
   \<and> process_all sample_dumps [''cpu 1 10''] (policy 2 5 4 idle) outage
       = (Inr (), fst (snd (process_all sample_dumps [''cpu 1 10''] (policy 2 5 4 idle) outage)), outage)
   \<and> length (metrics (fst (snd (process_all sample_dumps [''cpu 1 10''] (policy 2 5 4 idle) outage))))
       = 1
   \<and> process sample_dumps ''cpu 1 10'' (policy 1 5 4 connected) calm
       = flush (policy 1 5 4 (idle\<lparr>socket := Some 0, metrics := [''output=1;issued=10;name=cpu;'' @ [CHR 0x0A]]\<rparr>)) calm"
proof -
  let ?h = "policy 2 5 4 idle"
  let ?g = "policy 1 5 4 connected"
  let ?ms = "[''cpu 1 10'']"
  have e: "encodable sample_dumps ''cpu 1 10''" by (simp add: encode_defs)
  then have wf: "\<forall>m \<in> set ?ms. encodable sample_dumps m" by simp
  have a: "metrics ?h = []" by (simp add: run_defs)
  have b: "int (length ?ms) < batch_size ?h" by (simp add: run_defs)
  note t = process_batches [OF wf, of ?h outage]
  from t a b obtain h' where r: "process_all sample_dumps ?ms ?h outage = (Inr (), h', outage)"
    and n: "length (metrics h') = length ?ms" by blast
  from r have h': "h' = fst (snd (process_all sample_dumps ?ms ?h outage))" by simp
  have en: "encode sample_dumps ''cpu 1 10'' = Inr (''output=1;issued=10;name=cpu;'' @ [CHR 0x0A])"
    by (simp add: encode_defs)
  from t have "\<exists>entry. encode sample_dumps ''cpu 1 10'' = Inr entry
     \<and> process sample_dumps ''cpu 1 10'' ?g calm =
        (if batch_size ?g \<le> int (length (metrics ?g)) + 1
         then flush (?g\<lparr>metrics := metrics ?g @ [entry]\<rparr>) calm
         else (Inr (), ?g\<lparr>metrics := metrics ?g @ [entry]\<rparr>, calm))"
    by simp
  with en have p: "process sample_dumps ''cpu 1 10'' ?g calm =
        (if batch_size ?g \<le> int (length (metrics ?g)) + 1
         then flush (?g\<lparr>metrics := metrics ?g @ [''output=1;issued=10;name=cpu;'' @ [CHR 0x0A]]\<rparr>) calm
         else (Inr (), ?g\<lparr>metrics := metrics ?g @ [''output=1;issued=10;name=cpu;'' @ [CHR 0x0A]]\<rparr>, calm))"
    by auto
  have "process sample_dumps ''cpu 1 10'' ?g calm
       = flush (policy 1 5 4 (idle\<lparr>socket := Some 0, metrics := [''output=1;issued=10;name=cpu;'' @ [CHR 0x0A]]\<rparr>)) calm"
    unfolding p by (simp add: run_defs)
  with e a b r n h' show ?thesis by simp
qed

text \<open>
  Claim C8 as stated fails twice at batch size two.  One call with a metric of two
  tokens raises and appends nothing, so the backlog length is not the number of calls.
  And during an outage the second call reaches the threshold and flushes, and the third
  call, which finds the backlog already at the threshold, flushes again: two flushes
  for one crossing of the threshold.
\<close>

theorem flush_without_crossing_counterexample:
  "process sample_dumps ''a b'' (policy 2 5 4 idle) calm = (Inl IndexError, policy 2 5 4 idle, calm)
   \<and> int (length [''a b'']) < batch_size (policy 2 5 4 idle)
   \<and> length (metrics (policy 2 5 4 idle)) \<noteq> length [''a b'']
   \<and> fst (process_all sample_dumps [''cpu 1 10'', ''mem 2 11''] (policy 2 5 4 idle) outage) = Inr ()
   \<and> length (metrics (fst (snd (process_all sample_dumps [''cpu 1 10'', ''mem 2 11'']
        (policy 2 5 4 idle) outage)))) = 2
   \<and> reconnect_logs (snd (snd (process_all sample_dumps [''cpu 1 10'', ''mem 2 11'']
        (policy 2 5 4 idle) outage))) = 1
   \<and> fst (process_all sample_dumps [''cpu 1 10'', ''mem 2 11'', ''net 3 12'']
        (policy 2 5 4 idle) outage) = Inr ()
   \<and> length (metrics (fst (snd (process_all sample_dumps [''cpu 1 10'', ''mem 2 11'', ''net 3 12'']
        (policy 2 5 4 idle) outage)))) = 3
   \<and> reconnect_logs (snd (snd (process_all sample_dumps [''cpu 1 10'', ''mem 2 11'', ''net 3 12'']
        (policy 2 5 4 idle) outage))) = 2"
  by (simp add: run_defs encode_defs)

subsection \<open>C9: a successful flush\<close>

text \<open>
  Claim C9.  When \<open>_send_data\<close> returns normally inside \<open>_send\<close> (on the first attempt
  or on the retry), \<open>_send\<close> returns normally, the backlog is empty, the handler still
  holds the socket on which the last \<open>sendall\<close> of the whole backlog succeeded, and
  nothing but the log line of the trimming step follows that \<open>sendall\<close> in the trace:
  the socket is not closed.
\<close>

theorem successful_flush_clears_backlog:
  assumes ok: "transmit_result h w = Some (Inr ())" and run: "send h w = (r, h', w')"
  shows "r = Inr () \<and> metrics h' = []
    \<and> (\<exists>j pre post. socket h' = Some j
          \<and> trace w' = pre @ [SendAll j (concat (metrics h))] @ post
          \<and> (\<forall>ev \<in> set post. is_trim_log ev))"
proof -
  obtain r1 h1 w1 where body: "send_body h w = (r1, h1, w1)" by (cases "send_body h w")
  from send_body_result [OF body] ok
  obtain j pre where f: "r1 = Inr ()" "metrics h1 = []" "socket h1 = Some j"
    "trace w1 = pre @ [SendAll j (concat (metrics h))]" by auto
  from send_result [OF body run]
  have e: "r = r1" "h' = fst (send_finally h1 w1)" "w' = snd (send_finally h1 w1)" by simp_all
  have m: "metrics h' = []" using e f by (simp add: send_finally_metrics py_slice_from_def)
  have s: "socket h' = Some j" using e f by (simp add: send_finally_frame)
  from send_finally_trace [of h1 w1] obtain post
    where "trace w' = trace w1 @ post" "\<forall>ev \<in> set post. is_trim_log ev" using e by auto
  with f have "trace w' = pre @ [SendAll j (concat (metrics h))] @ post" by simp
  with \<open>\<forall>ev \<in> set post. is_trim_log ev\<close> m s e f show ?thesis by blast
qed

text \<open>
  The theorem on a connected handler with two entries, every call succeeding.
\<close>

theorem successful_flush_clears_backlog_witness:
  "transmit_result connected_two calm = Some (Inr ())
   \<and> fst (send connected_two calm) = Inr ()
   \<and> metrics (fst (snd (send connected_two calm))) = []"
proof -
  let ?h = "connected_two"
  let ?s = "send ?h calm"
  have t: "transmit_result ?h calm = Some (Inr ())" by (simp add: run_defs)
  have s: "?s = (fst ?s, fst (snd ?s), snd (snd ?s))" by (rule triple_collapse)
  from successful_flush_clears_backlog [OF t s]
  have "fst ?s = Inr ()" "metrics (fst (snd ?s)) = []" by auto
  with t show ?thesis by simp
qed

subsection \<open>C10: metrics with fewer than three tokens\<close>

text \<open>
  Claim C10.  If \<open>str(metric)\<close> has fewer than three whitespace-separated tokens,
  \<open>process\<close> raises IndexError and leaves the handler and the world as they were.
  Otherwise the encoding reads the first token as the name, the second as the output
  and the third as the issue time, whatever they are, and ignores the rest.
\<close>

theorem process_needs_three_tokens:
  "(length (split_ws metric) < 3 \<longrightarrow> process dumps metric h w = (Inl IndexError, h, w))
   \<and> (\<forall>name output issued rest. split_ws metric = name # output # issued # rest \<longrightarrow>
        encode dumps metric =
          (case dumps [(''output'', output), (''issued'', issued), (''name'', name)] of
             Inl e \<Rightarrow> Inl e
           | Inr js \<Rightarrow> Inr (js @ [CHR 0x0A])))"
  by (auto simp: process_def encode_short encode_def Let_def py_index_def)

text \<open>
  The theorem at a metric of two tokens and at a metric of three.
\<close>

theorem process_needs_three_tokens_witness:
  "length (split_ws ''a b'') < 3
   \<and> process sample_dumps ''a b'' idle calm = (Inl IndexError, idle, calm)
   \<and> split_ws ''cpu 1 10'' = [''cpu'', ''1'', ''10'']
   \<and> encode sample_dumps ''cpu 1 10'' = Inr (''output=1;issued=10;name=cpu;'' @ [CHR 0x0A])"
proof -
  have a: "length (split_ws ''a b'') < 3" by (simp add: split_ws_def is_space_def)
  have b: "split_ws ''cpu 1 10'' = ''cpu'' # ''1'' # ''10'' # []"
    by (simp add: split_ws_def is_space_def)
  from process_needs_three_tokens [of "''a b''" sample_dumps idle calm] a
  have p: "process sample_dumps ''a b'' idle calm = (Inl IndexError, idle, calm)" by blast
  from process_needs_three_tokens [of "''cpu 1 10''" sample_dumps idle calm] b
  have "encode sample_dumps ''cpu 1 10'' =
          (case sample_dumps [(''output'', ''1''), (''issued'', ''10''), (''name'', ''cpu'')] of
             Inl e \<Rightarrow> Inl e
           | Inr js \<Rightarrow> Inr (js @ [CHR 0x0A]))"
    by blast
  then have e: "encode sample_dumps ''cpu 1 10'' = Inr (''output=1;issued=10;name=cpu;'' @ [CHR 0x0A])"
    by (simp add: sample_dumps_def)
  from a b p e show ?thesis by simp
qed

end
